theory Spec2Isabelle
  imports Main
begin

text \<open>
  A shallow embedding of the version-aware transformation pipeline of the API gateway:
  the expression cache and the transformer of \<open>transformer.ts\<close>, the configuration loader
  of \<open>config-loader.ts\<close> and the request handler of \<open>worker.ts\<close>. State is passed
  explicitly, a thrown error is the left summand of a result, and the clock reading of
  \<open>Date.now()\<close> is an argument.
\<close>

section \<open>JavaScript values\<close>

text \<open>
  Request bodies, upstream responses and the results of evaluating an expression are JSON
  values, or \<open>undefined\<close>. Numbers are modelled by their integer value; the code under
  study only tests them for truthiness. Strings are lists of code units below 256. An
  object is the list of its own properties in property order.
\<close>

datatype jsval =
    JUndefined
  | JNull
  | JBool bool
  | JNum int
  | JStr string
  | JArr "jsval list"
  | JObj "(string \<times> jsval) list"

text \<open>JavaScript's truthiness test, as applied by \<open>if (x)\<close>, \<open>!x\<close>, \<open>x && y\<close> and \<open>x || y\<close>.\<close>

fun truthy :: "jsval \<Rightarrow> bool" where
  "truthy JUndefined = False"
| "truthy JNull = False"
| "truthy (JBool b) = b"
| "truthy (JNum n) = (n \<noteq> 0)"
| "truthy (JStr s) = (s \<noteq> [])"
| "truthy (JArr xs) = True"
| "truthy (JObj ps) = True"

text \<open>
  A thrown value is an instance of \<open>Error\<close>, carrying its message; or some other value
  that \<open>String(value)\<close> converts, represented by the text the conversion gives (for a plain
  object, \<open>[object Object]\<close>); or some other value for which \<open>String(value)\<close> itself throws
  (an object without \<open>toString\<close>, say), represented by what the conversion throws.
\<close>

datatype thrown = JsError string | NonError string | Unprintable thrown

text \<open>
  \<open>error instanceof Error ? error.message : String(error)\<close>: the text (\<open>Inr\<close>), or what
  the conversion throws (\<open>Inl\<close>).
\<close>

fun errorMessage :: "thrown \<Rightarrow> thrown + string" where
  "errorMessage (JsError m) = Inr m"
| "errorMessage (NonError s) = Inr s"
| "errorMessage (Unprintable e) = Inl e"

text \<open>Decimal rendering of a number inside a template string.\<close>

fun show_nat :: "nat \<Rightarrow> string" where
  "show_nat n =
     (if n < 10 then [''0123456789'' ! n]
      else show_nat (n div 10) @ [''0123456789'' ! (n mod 10)])"

definition show_int :: "int \<Rightarrow> string" where
  "show_int i = (if i < 0 then CHR ''-'' # show_nat (nat (- i)) else show_nat (nat i))"

section \<open>Insertion-ordered maps\<close>

text \<open>
  A JavaScript \<open>Map\<close> iterates in insertion order. \<open>Map.set\<close> on a key that is present
  replaces the value and keeps the key's position; on a new key it appends. \<open>Map.delete\<close>
  removes the key.
\<close>

fun Map_set :: "'k \<Rightarrow> 'v \<Rightarrow> ('k \<times> 'v) list \<Rightarrow> ('k \<times> 'v) list" where
  "Map_set k v [] = [(k, v)]"
| "Map_set k v (p # ps) = (if fst p = k then (k, v) # ps else p # Map_set k v ps)"

definition Map_delete :: "'k \<Rightarrow> ('k \<times> 'v) list \<Rightarrow> ('k \<times> 'v) list" where
  "Map_delete k ps = filter (\<lambda>p. fst p \<noteq> k) ps"

section \<open>ExpressionCache\<close>

text \<open>
  The cache entry of \<open>types.ts\<close>; its fields \<open>expression\<close>, \<open>cachedAt\<close> and \<open>ttl\<close> carry the
  prefix \<open>entry_\<close> here. The compiled expression is an opaque value of type \<open>'c\<close>.
\<close>

record 'c CacheEntry =
  entry_expression :: 'c
  entry_cachedAt :: int
  entry_ttl :: int

record 'c ExpressionCache =
  ec_cache :: "(string \<times> 'c CacheEntry) list"
  ec_maxSize :: int

definition new_ExpressionCache :: "int \<Rightarrow> 'c ExpressionCache" where
  "new_ExpressionCache maxSize = \<lparr> ec_cache = [], ec_maxSize = maxSize \<rparr>"

text \<open>
  \<open>ExpressionCache.get\<close>, with the reading \<open>now\<close> of \<open>Date.now()\<close>. The result is the
  compiled expression, or \<open>None\<close> for \<open>null\<close>, and the cache after the call.
\<close>

definition ExpressionCache_get ::
  "int \<Rightarrow> string \<Rightarrow> 'c ExpressionCache \<Rightarrow> 'c option \<times> 'c ExpressionCache" where
  "ExpressionCache_get now key c =
     (case map_of (ec_cache c) key of
        None \<Rightarrow> (None, c)
      | Some entry \<Rightarrow>
          if now - entry_cachedAt entry > entry_ttl entry
          then (None, c\<lparr> ec_cache := Map_delete key (ec_cache c) \<rparr>)
          else (Some (entry_expression entry),
                c\<lparr> ec_cache := Map_set key entry (Map_delete key (ec_cache c)) \<rparr>))"

text \<open>
  \<open>ExpressionCache.set\<close>. At capacity the first key in iteration order is deleted, unless
  there is none or it is the empty string (\<open>if (firstKey)\<close>).
\<close>

definition ExpressionCache_set ::
  "int \<Rightarrow> string \<Rightarrow> 'c \<Rightarrow> int \<Rightarrow> 'c ExpressionCache \<Rightarrow> 'c ExpressionCache" where
  "ExpressionCache_set now key expr ttl c =
     (let evicted =
            (if int (length (ec_cache c)) \<ge> ec_maxSize c
             then (case ec_cache c of
                     [] \<Rightarrow> []
                   | p # ps \<Rightarrow> if fst p \<noteq> [] then Map_delete (fst p) (p # ps) else p # ps)
             else ec_cache c)
      in c\<lparr> ec_cache :=
              Map_set key \<lparr> entry_expression = expr, entry_cachedAt = now, entry_ttl = ttl \<rparr>
                evicted \<rparr>)"

definition ExpressionCache_clear :: "'c ExpressionCache \<Rightarrow> 'c ExpressionCache" where
  "ExpressionCache_clear c = c\<lparr> ec_cache := [] \<rparr>"

definition ExpressionCache_size :: "'c ExpressionCache \<Rightarrow> nat" where
  "ExpressionCache_size c = length (ec_cache c)"

section \<open>JsonataTransformer\<close>

text \<open>
  Calls of the logger have no effect on what the functions return and are left out
  throughout. The expression language is an external library: \<open>jsonata src\<close> compiles a
  source text or throws; \<open>evaluate compiled dat\<close> runs synchronously for some number of
  milliseconds and then returns a value or throws.
\<close>

record 'c JsonataLib =
  jsonata :: "string \<Rightarrow> thrown + 'c"
  evaluate :: "'c \<Rightarrow> jsval \<Rightarrow> nat \<times> (thrown + jsval)"

text \<open>
  The interfaces of \<open>types.ts\<close>. A property that may be absent at run time is an option;
  the configuration document comes from an unchecked cast of parsed JSON, so every one of
  its properties may be absent. A property that is present has the type its interface
  declares. Properties the code never reads (\<open>compiled\<close>, \<open>since\<close>, \<open>customFunctions\<close>,
  \<open>metadata\<close>) are left out.
\<close>

record TransformationExpression =
  expression :: "string option"
  cacheTtl :: "int option"
  description :: "string option"

datatype TransformDirection = DirRequest | DirResponse

record TransformContext =
  fromVersion :: "string option"
  toVersion :: "string option"
  direction :: TransformDirection
  timeout :: "int option"

record Metrics =
  durationMs :: int
  m_fromVersion :: "string option"
  m_toVersion :: "string option"
  m_direction :: TransformDirection

record TransformationResult =
  data :: jsval
  success :: bool
  error :: "string option"
  metrics :: "Metrics option"

record 'c JsonataTransformer =
  expressionCache :: "'c ExpressionCache"
  defaultTimeout :: int

text \<open>\<open>x || d\<close> on an optional number: \<open>undefined\<close> and \<open>0\<close> are falsy.\<close>

definition num_or :: "int option \<Rightarrow> int \<Rightarrow> int" where
  "num_or x d = (case x of None \<Rightarrow> d | Some n \<Rightarrow> if n = 0 then d else n)"

definition new_JsonataTransformer :: "int option \<Rightarrow> int option \<Rightarrow> 'c JsonataTransformer" where
  "new_JsonataTransformer cacheSize dTimeout =
     \<lparr> expressionCache = new_ExpressionCache (num_or cacheSize 100),
       defaultTimeout = num_or dTimeout 50 \<rparr>"

text \<open>The cache key: \<open>`expr:${expression.substring(0, 100)}`\<close>.\<close>

definition cacheKey :: "string \<Rightarrow> string" where
  "cacheKey src = ''expr:'' @ take 100 src"

text \<open>
  \<open>compileExpression\<close>. The result is the compiled expression or the thrown error, and
  the transformer after the call. The \<open>catch\<close> block builds the message of the error it
  throws from the text of the compiler's error; when that text cannot be had, what the
  conversion throws leaves the function instead.
\<close>

definition compileExpression ::
  "'c JsonataLib \<Rightarrow> int \<Rightarrow> string \<Rightarrow> int \<Rightarrow> 'c JsonataTransformer
     \<Rightarrow> (thrown + 'c) \<times> 'c JsonataTransformer" where
  "compileExpression lib now src ttl t =
     (case ExpressionCache_get now (cacheKey src) (expressionCache t) of
        (Some cached, c1) \<Rightarrow> (Inr cached, t\<lparr> expressionCache := c1 \<rparr>)
      | (None, c1) \<Rightarrow>
          (case jsonata lib src of
             Inr compiled \<Rightarrow>
               (Inr compiled,
                t\<lparr> expressionCache := ExpressionCache_set now (cacheKey src) compiled ttl c1 \<rparr>)
           | Inl e \<Rightarrow>
               (case errorMessage e of
                  Inr m \<Rightarrow>
                    (Inl (JsError (''Failed to compile JSONata expression: '' @ m)),
                     t\<lparr> expressionCache := c1 \<rparr>)
                | Inl e' \<Rightarrow> (Inl e', t\<lparr> expressionCache := c1 \<rparr>))))"

text \<open>
  \<open>executeWithTimeout\<close>, entered when the clock reads \<open>now\<close>. The promise executor runs
  to completion before any timer callback can run: \<open>setTimeout\<close> registers the rejecting
  callback, \<open>evaluate\<close> runs synchronously (the clock advances by its duration),
  \<open>clearTimeout\<close> removes the timer on both paths, and the promise is settled with the
  evaluation's outcome. The result is the clock after the call, what the promise settles
  with, and the timers still registered.
\<close>

type_synonym timer = "int \<times> thrown"

definition setTimeout :: "thrown \<Rightarrow> int \<Rightarrow> int \<Rightarrow> timer list \<Rightarrow> timer list" where
  "setTimeout rejection delay now timers = timers @ [(now + delay, rejection)]"

definition clearTimeout :: "timer \<Rightarrow> timer list \<Rightarrow> timer list" where
  "clearTimeout tm timers = removeAll tm timers"

definition executeWithTimeout ::
  "'c JsonataLib \<Rightarrow> 'c \<Rightarrow> jsval \<Rightarrow> int \<Rightarrow> int \<Rightarrow> int \<times> (thrown + jsval) \<times> timer list" where
  "executeWithTimeout lib compiled dat timeoutMs now =
     (let rejection = JsError (''Transformation timeout after '' @ show_int timeoutMs @ ''ms'');
          timers = setTimeout rejection timeoutMs now [];
          (d, r) = evaluate lib compiled dat;
          now' = now + int d
      in case r of
           Inr result \<Rightarrow> (now', Inr result, clearTimeout (now + timeoutMs, rejection) timers)
         | Inl e \<Rightarrow> (now', Inl e, clearTimeout (now + timeoutMs, rejection) timers))"

text \<open>
  \<open>transform\<close>, started when the clock reads \<open>now\<close>. The result is what the call returns
  (\<open>Inr\<close>) or throws (\<open>Inl\<close>), and the transformer after the call. Reading \<open>substring\<close> of
  an absent \<open>expression\<close> throws a \<open>TypeError\<close> inside the \<open>try\<close> block. \<open>transform_catch\<close>
  is the \<open>catch\<close> block, entered with the thrown value after \<open>duration\<close> milliseconds: it
  returns the failure outcome, unless the thrown value has no text, in which case what
  the conversion throws leaves \<open>transform\<close>.
\<close>

definition transform_catch ::
  "jsval \<Rightarrow> TransformContext \<Rightarrow> int \<Rightarrow> thrown \<Rightarrow> thrown + TransformationResult" where
  "transform_catch dat ctx duration e =
     (case errorMessage e of
        Inl e' \<Rightarrow> Inl e'
      | Inr msg \<Rightarrow>
          Inr \<lparr> data = dat, success = False, error = Some msg,
                metrics = Some \<lparr> durationMs = duration, m_fromVersion = fromVersion ctx,
                                 m_toVersion = toVersion ctx, m_direction = direction ctx \<rparr> \<rparr>)"

definition transform ::
  "'c JsonataLib \<Rightarrow> int \<Rightarrow> jsval \<Rightarrow> TransformationExpression \<Rightarrow> TransformContext
     \<Rightarrow> 'c JsonataTransformer \<Rightarrow> (thrown + TransformationResult) \<times> 'c JsonataTransformer" where
  "transform lib now dat transformExpr ctx t =
     (let startTime = now;
          tmo = num_or (timeout ctx) (defaultTimeout t)
      in case expression transformExpr of
           None \<Rightarrow>
             (transform_catch dat ctx (now - startTime)
                (JsError ''Cannot read properties of undefined (reading 'substring')''), t)
         | Some src \<Rightarrow>
             (case compileExpression lib now src (num_or (cacheTtl transformExpr) 3600 * 1000) t of
                (Inl e, t1) \<Rightarrow> (transform_catch dat ctx (now - startTime) e, t1)
              | (Inr compiled, t1) \<Rightarrow>
                  (case executeWithTimeout lib compiled dat tmo now of
                     (now', Inl e, timers) \<Rightarrow>
                       (transform_catch dat ctx (now' - startTime) e, t1)
                   | (now', Inr result, timers) \<Rightarrow>
                       (Inr \<lparr> data = result, success = True, error = None,
                              metrics = Some \<lparr> durationMs = now' - startTime,
                                               m_fromVersion = fromVersion ctx,
                                               m_toVersion = toVersion ctx,
                                               m_direction = direction ctx \<rparr> \<rparr>, t1))))"

section \<open>ConfigLoader\<close>

record VersionTransformation =
  request :: "TransformationExpression option"
  response :: "TransformationExpression option"
  targetVersion :: "string option"

record TransformationConfig =
  version :: "string option"
  defaultVersion :: "string option"
  upstreamVersion :: "string option"
  transformations :: "(string \<times> VersionTransformation) list option"
  routing :: "(string \<times> string list) list option"

text \<open>
  The environment bindings. \<open>TRANSFORMATIONS key\<close> is what \<open>TRANSFORMATIONS.get(key, 'text')\<close>
  settles with: a rejection, \<open>null\<close> or a text.
\<close>

record Env =
  TRANSFORMATIONS :: "string \<Rightarrow> thrown + string option"
  UPSTREAM_API :: string
  LOG_LEVEL :: "string option"
  TRANSFORMATION_TIMEOUT_MS :: "string option"
  CACHE_TTL_SECONDS :: "string option"

text \<open>
  \<open>JSON.parse(configJson) as TransformationConfig\<close> is given by the platform: it throws on
  malformed text, and otherwise yields the document, \<open>None\<close> standing for the JSON value
  \<open>null\<close>. A document that is not an object has no properties.
\<close>

type_synonym json_parse = "string \<Rightarrow> thrown + TransformationConfig option"

text \<open>
  \<open>parseInt(s, 10)\<close>; \<open>None\<close> is \<open>NaN\<close>. The white space it skips is, among the code units
  below 256 that a \<open>string\<close> holds, tab, line feed, vertical tab, form feed, carriage
  return, space and no-break space. The result is the exact integer the digits denote:
  it is the number \<open>parseInt\<close> gives as long as that integer is below 9007199254740992
  (two to the power 53) in magnitude, beyond which JavaScript rounds to the nearest
  double.
\<close>

definition is_ws :: "char \<Rightarrow> bool" where
  "is_ws c = (c \<in> set [CHR 0x09, CHR 0x0A, CHR 0x0B, CHR 0x0C, CHR 0x0D, CHR 0x20, CHR 0xA0])"

definition is_digit :: "char \<Rightarrow> bool" where
  "is_digit c = (c \<in> set ''0123456789'')"

definition digit_val :: "char \<Rightarrow> int" where
  "digit_val c = int (of_char c) - 48"

definition parseInt10 :: "string \<Rightarrow> int option" where
  "parseInt10 s =
     (let s1 = dropWhile is_ws s;
          neg = (s1 \<noteq> [] \<and> hd s1 = CHR ''-'');
          s2 = (if s1 \<noteq> [] \<and> (hd s1 = CHR ''-'' \<or> hd s1 = CHR ''+'') then tl s1 else s1);
          ds = takeWhile is_digit s2;
          n = foldl (\<lambda>a c. 10 * a + digit_val c) 0 ds
      in if ds = [] then None else Some (if neg then - n else n))"

text \<open>\<open>s || d\<close> on an optional string: \<open>undefined\<close> and the empty string are falsy.\<close>

definition str_truthy :: "string option \<Rightarrow> bool" where
  "str_truthy s = (case s of None \<Rightarrow> False | Some x \<Rightarrow> x \<noteq> [])"

definition str_or :: "string option \<Rightarrow> string \<Rightarrow> string" where
  "str_or s d = (case s of None \<Rightarrow> d | Some x \<Rightarrow> if x = [] then d else x)"

text \<open>
  The single-slot cache of the loader; its \<open>ttl\<close> is \<open>None\<close> when the computed number is
  \<open>NaN\<close>. The loader's logger is left out.
\<close>

record ConfigCache =
  config :: TransformationConfig
  cachedAt :: int
  ttl :: "int option"

record ConfigLoader =
  cl_cache :: "ConfigCache option"
  cl_env :: Env

definition createConfigLoader :: "Env \<Rightarrow> ConfigLoader" where
  "createConfigLoader env = \<lparr> cl_cache = None, cl_env = env \<rparr>"

text \<open>\<open>validateConfig\<close>: \<open>Inl\<close> is the error it throws. The loop over the entries:\<close>

fun validateEntries :: "(string \<times> VersionTransformation) list \<Rightarrow> thrown + unit" where
  "validateEntries [] = Inr ()"
| "validateEntries ((v, transformation) # rest) =
     (case request transformation of
        None \<Rightarrow> Inl (JsError (''Invalid transformation for version '' @ v
                                 @ '': missing request or response''))
      | Some rq \<Rightarrow>
          (case response transformation of
             None \<Rightarrow> Inl (JsError (''Invalid transformation for version '' @ v
                                      @ '': missing request or response''))
           | Some rs \<Rightarrow>
               if \<not> str_truthy (expression rq) \<or> \<not> str_truthy (expression rs)
               then Inl (JsError (''Invalid transformation for version '' @ v
                                    @ '': missing expressions''))
               else validateEntries rest))"

definition validateConfig :: "TransformationConfig option \<Rightarrow> thrown + unit" where
  "validateConfig doc =
     (case doc of
        None \<Rightarrow> Inl (JsError ''Cannot read properties of null (reading 'version')'')
      | Some cfg \<Rightarrow>
          if \<not> str_truthy (version cfg)
          then Inl (JsError ''Configuration missing version field'')
          else if \<not> str_truthy (defaultVersion cfg)
          then Inl (JsError ''Configuration missing defaultVersion field'')
          else (case transformations cfg of
                  None \<Rightarrow> Inl (JsError ''Configuration missing transformations object'')
                | Some ts \<Rightarrow> validateEntries ts))"

text \<open>
  \<open>loadFromKV\<close>: the body of its \<open>try\<close> block, then the function with its \<open>catch\<close>, which
  turns every error into \<open>null\<close>.
\<close>

definition loadFromKV_try ::
  "json_parse \<Rightarrow> ConfigLoader \<Rightarrow> thrown + TransformationConfig option" where
  "loadFromKV_try parse l =
     (case TRANSFORMATIONS (cl_env l) ''config:main'' of
        Inl e \<Rightarrow> Inl e
      | Inr configJson \<Rightarrow>
          if \<not> str_truthy configJson then Inr None
          else (case parse (the configJson) of
                  Inl e \<Rightarrow> Inl e
                | Inr doc \<Rightarrow>
                    (case validateConfig doc of
                       Inl e \<Rightarrow> Inl e
                     | Inr u \<Rightarrow> Inr doc)))"

definition loadFromKV ::
  "json_parse \<Rightarrow> ConfigLoader \<Rightarrow> thrown + TransformationConfig option" where
  "loadFromKV parse l =
     (case loadFromKV_try parse l of
        Inl e \<Rightarrow> Inr None
      | Inr r \<Rightarrow> Inr r)"

text \<open>\<open>loadExpression\<close>\<close>

definition loadExpression :: "ConfigLoader \<Rightarrow> string \<Rightarrow> string option" where
  "loadExpression l key =
     (case TRANSFORMATIONS (cl_env l) key of
        Inl e \<Rightarrow> None
      | Inr r \<Rightarrow> r)"

definition cacheConfig :: "int \<Rightarrow> TransformationConfig \<Rightarrow> ConfigLoader \<Rightarrow> ConfigLoader" where
  "cacheConfig now cfg l =
     l\<lparr> cl_cache :=
          Some \<lparr> config = cfg, cachedAt = now,
                 ttl = map_option (\<lambda>n. n * 1000)
                         (parseInt10 (str_or (CACHE_TTL_SECONDS (cl_env l)) ''3600'')) \<rparr> \<rparr>"

definition isCacheValid :: "int \<Rightarrow> ConfigCache \<Rightarrow> bool" where
  "isCacheValid now c = (case ttl c of None \<Rightarrow> False | Some t \<Rightarrow> now - cachedAt c < t)"

definition clearCache :: "ConfigLoader \<Rightarrow> ConfigLoader" where
  "clearCache l = l\<lparr> cl_cache := None \<rparr>"

text \<open>\<open>getDefaultConfig\<close>. The two multi-line template literals are spelled out.\<close>

definition v1_request_source :: string where
  "v1_request_source =
     ''{'' @ [CHR 0x0A] @
     ''              '' @ [CHR 0x22] @ ''id'' @ [CHR 0x22] @ '': user_id,'' @ [CHR 0x0A] @
     ''              '' @ [CHR 0x22] @ ''name'' @ [CHR 0x22] @ '': full_name,'' @ [CHR 0x0A] @
     ''              '' @ [CHR 0x22] @ ''username'' @ [CHR 0x22] @ '': user_name,'' @ [CHR 0x0A] @
     ''              '' @ [CHR 0x22] @ ''email'' @ [CHR 0x22] @ '': email_address'' @ [CHR 0x0A] @
     ''            }''"

definition v1_response_source :: string where
  "v1_response_source =
     ''{'' @ [CHR 0x0A] @
     ''              '' @ [CHR 0x22] @ ''user_id'' @ [CHR 0x22] @ '': id,'' @ [CHR 0x0A] @
     ''              '' @ [CHR 0x22] @ ''full_name'' @ [CHR 0x22] @ '': name,'' @ [CHR 0x0A] @
     ''              '' @ [CHR 0x22] @ ''user_name'' @ [CHR 0x22] @ '': username,'' @ [CHR 0x0A] @
     ''              '' @ [CHR 0x22] @ ''email_address'' @ [CHR 0x22] @ '': email,'' @ [CHR 0x0A] @
     ''              '' @ [CHR 0x22] @ ''location'' @ [CHR 0x22] @ '': address'' @ [CHR 0x0A] @
     ''            }''"

definition getDefaultConfig :: TransformationConfig where
  "getDefaultConfig =
     \<lparr> version = Some ''1.0.0'',
       defaultVersion = Some ''v2'',
       upstreamVersion = Some ''v2'',
       transformations = Some
         [(''v1'',
           \<lparr> request = Some \<lparr> expression = Some v1_request_source, cacheTtl = Some 3600,
                              description = Some ''Transform v1 request to v2 format'' \<rparr>,
             response = Some \<lparr> expression = Some v1_response_source, cacheTtl = Some 3600,
                               description = Some ''Transform v2 response back to v1 format'' \<rparr>,
             targetVersion = Some ''v2'' \<rparr>),
          (''v2'',
           \<lparr> request = Some \<lparr> expression = Some ''$'', cacheTtl = None,
                              description = Some ''No transformation (current version)'' \<rparr>,
             response = Some \<lparr> expression = Some ''$'', cacheTtl = None,
                               description = Some ''No transformation (current version)'' \<rparr>,
             targetVersion = Some ''v2'' \<rparr>)],
       routing = Some
         [(''/users'', [''v1'', ''v2'']),
          (''/posts'', [''v1'', ''v2'']),
          (''/comments'', [''v1'', ''v2''])] \<rparr>"

text \<open>
  \<open>loadConfig\<close>, called when the clock reads \<open>now\<close>. The result is the configuration it
  returns (\<open>Inr\<close>) or the error it throws (\<open>Inl\<close>), and the loader after the call.
\<close>

definition loadConfig ::
  "json_parse \<Rightarrow> int \<Rightarrow> ConfigLoader \<Rightarrow> (thrown + TransformationConfig) \<times> ConfigLoader" where
  "loadConfig parse now l =
     (if (case cl_cache l of None \<Rightarrow> False | Some c \<Rightarrow> isCacheValid now c)
      then (Inr (config (the (cl_cache l))), l)
      else (case loadFromKV parse l of
              Inr (Some kvConfig) \<Rightarrow> (Inr kvConfig, cacheConfig now kvConfig l)
            | Inr None \<Rightarrow> (Inr getDefaultConfig, cacheConfig now getDefaultConfig l)
            | Inl e \<Rightarrow> (Inr getDefaultConfig, cacheConfig now getDefaultConfig l)))"

definition reload ::
  "json_parse \<Rightarrow> int \<Rightarrow> ConfigLoader \<Rightarrow> (thrown + TransformationConfig) \<times> ConfigLoader" where
  "reload parse now l = loadConfig parse now (clearCache l)"

text \<open>
  Objects made by \<open>JSON.parse\<close> or by an object literal inherit from \<open>Object.prototype\<close>, so
  \<open>key in obj\<close> and \<open>obj[key]\<close> also find these names. What \<open>obj[key]\<close> finds there is a
  function or object that has no property \<open>request\<close>.
\<close>

definition object_prototype_keys :: "string list" where
  "object_prototype_keys =
     [''constructor'', ''__defineGetter__'', ''__defineSetter__'', ''hasOwnProperty'',
      ''__lookupGetter__'', ''__lookupSetter__'', ''isPrototypeOf'', ''propertyIsEnumerable'',
      ''toString'', ''valueOf'', ''__proto__'', ''toLocaleString'']"

text \<open>
  Resolving one leg of \<open>getVersionTransformation\<close>: a source that starts with \<open>kv:\<close> is
  replaced by the text stored under the rest of it, when that text is truthy.
\<close>

definition resolve_leg :: "ConfigLoader \<Rightarrow> TransformationExpression \<Rightarrow> thrown + TransformationExpression" where
  "resolve_leg l leg =
     (case expression leg of
        None \<Rightarrow> Inl (JsError ''Cannot read properties of undefined (reading 'startsWith')'')
      | Some src \<Rightarrow>
          if take 3 src = ''kv:''
          then (case loadExpression l (drop 3 src) of
                  None \<Rightarrow> Inr leg
                | Some e \<Rightarrow> if e \<noteq> [] then Inr (leg\<lparr> expression := Some e \<rparr>) else Inr leg)
          else Inr leg)"

text \<open>
  Assignment to a property of the transformation. The configuration \<open>loadConfig\<close> returns is
  the object the cache slot refers to (\<open>cacheConfig\<close> stores the reference, and a cache hit
  returns it), so the assignment writes into the cached document.
\<close>

definition assign_transformation :: "string \<Rightarrow> VersionTransformation \<Rightarrow> ConfigLoader \<Rightarrow> ConfigLoader" where
  "assign_transformation v tr l =
     l\<lparr> cl_cache :=
          map_option
            (\<lambda>c. c\<lparr> config := (config c)\<lparr> transformations :=
                      map_option (Map_set v tr) (transformations (config c)) \<rparr> \<rparr>)
            (cl_cache l) \<rparr>"

definition getVersionTransformation ::
  "json_parse \<Rightarrow> int \<Rightarrow> string \<Rightarrow> ConfigLoader
     \<Rightarrow> (thrown + VersionTransformation option) \<times> ConfigLoader" where
  "getVersionTransformation parse now v l =
     (case loadConfig parse now l of
        (Inl e, l1) \<Rightarrow> (Inl e, l1)
      | (Inr cfg, l1) \<Rightarrow>
          (case transformations cfg of
             None \<Rightarrow> (Inl (JsError ''Cannot read properties of undefined''), l1)
           | Some ts \<Rightarrow>
               (case map_of ts v of
                  None \<Rightarrow>
                    if v \<in> set object_prototype_keys
                    then (Inl (JsError ''Cannot read properties of undefined (reading 'expression')''), l1)
                    else (Inr None, l1)
                | Some transformation \<Rightarrow>
                    (case request transformation of
                       None \<Rightarrow> (Inl (JsError ''Cannot read properties of undefined (reading 'expression')''), l1)
                     | Some rq \<Rightarrow>
                         (case resolve_leg l1 rq of
                            Inl e \<Rightarrow> (Inl e, l1)
                          | Inr rq' \<Rightarrow>
                              (let t1 = transformation\<lparr> request := Some rq' \<rparr>;
                                   l2 = assign_transformation v t1 l1
                               in case response t1 of
                                    None \<Rightarrow> (Inl (JsError ''Cannot read properties of undefined (reading 'expression')''), l2)
                                  | Some rs \<Rightarrow>
                                      (case resolve_leg l2 rs of
                                         Inl e \<Rightarrow> (Inl e, l2)
                                       | Inr rs' \<Rightarrow>
                                           (let t2 = t1\<lparr> response := Some rs' \<rparr>
                                            in (Inr (Some t2), assign_transformation v t2 l2)))))))))"

definition isSupportedVersion ::
  "json_parse \<Rightarrow> int \<Rightarrow> string \<Rightarrow> ConfigLoader \<Rightarrow> (thrown + bool) \<times> ConfigLoader" where
  "isSupportedVersion parse now v l =
     (case loadConfig parse now l of
        (Inl e, l1) \<Rightarrow> (Inl e, l1)
      | (Inr cfg, l1) \<Rightarrow>
          (case transformations cfg of
             None \<Rightarrow> (Inl (JsError ''Cannot use 'in' operator to search in undefined''), l1)
           | Some ts \<Rightarrow> (Inr (v \<in> set (map fst ts) \<or> v \<in> set object_prototype_keys), l1)))"

text \<open>
  \<open>getSupportedVersions\<close>. Its argument is a URL path, which starts with a slash, so the
  lookup in \<open>routing\<close> finds own properties only.
\<close>

definition getSupportedVersions ::
  "json_parse \<Rightarrow> int \<Rightarrow> string \<Rightarrow> ConfigLoader \<Rightarrow> (thrown + string list) \<times> ConfigLoader" where
  "getSupportedVersions parse now path l =
     (case loadConfig parse now l of
        (Inl e, l1) \<Rightarrow> (Inl e, l1)
      | (Inr cfg, l1) \<Rightarrow>
          (case (case routing cfg of None \<Rightarrow> None | Some r \<Rightarrow> map_of r path) of
             Some vs \<Rightarrow> (Inr vs, l1)
           | None \<Rightarrow>
               (case transformations cfg of
                  None \<Rightarrow> (Inl (JsError ''Cannot convert undefined or null to object''), l1)
                | Some ts \<Rightarrow> (Inr (map fst ts), l1))))"

section \<open>Worker\<close>

text \<open>
  What the worker reads of the inbound request: \<open>req_headers\<close> is \<open>headers.get\<close>, which
  ignores case, keyed by the lower-cased name; \<open>req_pathname\<close>, \<open>req_search\<close> and
  \<open>req_searchParams\<close> are the parts of \<open>new URL(request.url)\<close>; \<open>req_json\<close> is what
  \<open>request.json()\<close> settles with.
\<close>

record Request =
  req_method :: string
  req_headers :: "string \<Rightarrow> string option"
  req_pathname :: string
  req_search :: string
  req_searchParams :: "(string \<times> string) list"
  req_json :: "thrown + jsval"

record RequestContext =
  url_pathname :: string
  url_search :: string
  http_method :: string
  headers :: "string \<Rightarrow> string option"
  apiVersion :: string
  path :: string
  body :: jsval
  requestId :: string

text \<open>\<open>a || b\<close> on two optional strings.\<close>

definition js_or :: "string option \<Rightarrow> string option \<Rightarrow> string option" where
  "js_or a b = (if str_truthy a then a else b)"

text \<open>\<open>String.prototype.includes\<close>\<close>

fun str_includes :: "string \<Rightarrow> string \<Rightarrow> bool" where
  "str_includes [] p = (p = [])"
| "str_includes (c # cs) p = (take (length p) (c # cs) = p \<or> str_includes cs p)"

text \<open>The first group of \<open>url.pathname.match(/^\/(v\d+)\//)\<close>, when the path matches.\<close>

definition path_version :: "string \<Rightarrow> string option" where
  "path_version p =
     (case p of
        c1 # c2 # rest \<Rightarrow>
          if c1 = CHR ''/'' \<and> c2 = CHR ''v'' \<and> takeWhile is_digit rest \<noteq> []
             \<and> take 1 (dropWhile is_digit rest) = ''/''
          then Some (CHR ''v'' # takeWhile is_digit rest)
          else None
      | _ \<Rightarrow> None)"

definition parseRequestContext :: "Request \<Rightarrow> string \<Rightarrow> RequestContext" where
  "parseRequestContext rq rid =
     (let versionHeader = js_or (req_headers rq ''api-version'') (req_headers rq ''x-api-version'');
          v1 = (if str_truthy versionHeader then versionHeader else None);
          versionParam = js_or (map_of (req_searchParams rq) ''api-version'')
                               (map_of (req_searchParams rq) ''version'');
          v2 = (if \<not> str_truthy v1 \<and> str_truthy versionParam then versionParam else v1);
          pathMatch = path_version (req_pathname rq);
          v3 = (if \<not> str_truthy v2 \<and> pathMatch \<noteq> None then pathMatch else v2);
          parsed =
            (if req_method rq \<noteq> ''GET'' \<and> req_method rq \<noteq> ''HEAD''
                \<and> (case req_headers rq ''content-type'' of
                       None \<Rightarrow> False
                     | Some ct \<Rightarrow> str_includes ct ''application/json'')
             then (case req_json rq of Inr v \<Rightarrow> v | Inl e \<Rightarrow> JNull)
             else JNull)
      in \<lparr> url_pathname = req_pathname rq, url_search = req_search rq,
           http_method = req_method rq, headers = req_headers rq,
           apiVersion = str_or v3 [], path = req_pathname rq, body = parsed,
           requestId = rid \<rparr>)"

text \<open>
  The outbound request handed to the global \<open>fetch\<close>, and what \<open>fetch\<close> settles with after
  some milliseconds. \<open>up_body\<close> is the value whose \<open>JSON.stringify\<close> text is sent, or \<open>None\<close>
  for \<open>null\<close>. \<open>ur_json\<close> is what \<open>upstreamResponse.json()\<close> settles with; \<open>ur_headers\<close> lists
  the headers under their lower-cased names.
\<close>

record UpstreamRequest =
  up_base :: string
  up_path :: string
  up_method :: string
  up_headers :: "(string \<times> string) list"
  up_body :: "jsval option"

record UpstreamResponse =
  ur_status :: int
  ur_headers :: "(string \<times> string) list"
  ur_json :: "thrown + jsval"
  ur_stream :: string

type_synonym upstream = "UpstreamRequest \<Rightarrow> nat \<times> (thrown + UpstreamResponse)"

text \<open>
  The response of the worker. \<open>JsonText v\<close> is the body \<open>JSON.stringify(v, null, 2)\<close>;
  \<open>Passthrough s\<close> is the upstream's body stream handed on.
\<close>

datatype ResponseBody = JsonText jsval | Passthrough string

record Response =
  resp_body :: ResponseBody
  resp_status :: int
  resp_headers :: "(string \<times> string) list"

text \<open>A version inside a template string, as a property key or as a header value.\<close>

definition key_of :: "string option \<Rightarrow> string" where
  "key_of v = (case v of None \<Rightarrow> ''undefined'' | Some s \<Rightarrow> s)"

definition createErrorResponse :: "(string \<times> jsval) list \<Rightarrow> int \<Rightarrow> string option \<Rightarrow> Response" where
  "createErrorResponse err status ver =
     \<lparr> resp_body = JsonText (JObj err),
       resp_status = status,
       resp_headers =
         [(''Content-Type'', ''application/json'')]
         @ (if str_truthy ver then [(''X-API-Version'', key_of ver)] else [])
         @ [(''X-Powered-By'', ''JSONata-API-Gateway'')] \<rparr>"

text \<open>
  The calls a request makes to the transformation engine and to the upstream, in order:
  the direction, input and outcome of a \<open>transform\<close>, and the request handed to \<open>fetch\<close>
  with what came back.
\<close>

datatype event =
    Transformed TransformDirection jsval TransformationResult
  | Forwarded UpstreamRequest "thrown + UpstreamResponse"

text \<open>A step of the handler continues, returns a response, or throws.\<close>

datatype 'a flow = Continue 'a | Return Response | Throw thrown

text \<open>
  Lines 81 to 117 of the handler: the request leg. It continues with \<open>upstreamBody\<close>, the
  clock and the transformer.
\<close>

definition fetch_requestLeg ::
  "'c JsonataLib \<Rightarrow> int \<Rightarrow> RequestContext \<Rightarrow> TransformationConfig \<Rightarrow> string option
     \<Rightarrow> VersionTransformation \<Rightarrow> 'c JsonataTransformer
     \<Rightarrow> (jsval \<times> int \<times> 'c JsonataTransformer) flow \<times> event list" where
  "fetch_requestLeg lib now ctx cfg apiVer versionTransform transformer =
     (if \<not> truthy (body ctx) then (Continue (body ctx, now, transformer), [])
      else if \<not> (apiVer \<noteq> upstreamVersion cfg) then (Continue (body ctx, now, transformer), [])
      else (case request versionTransform of
              None \<Rightarrow> (Throw (JsError ''Cannot read properties of undefined (reading 'expression')''), [])
            | Some leg \<Rightarrow>
                if \<not> (expression leg \<noteq> Some ''$'') then (Continue (body ctx, now, transformer), [])
                else (case transform lib now (body ctx) leg
                             \<lparr> fromVersion = apiVer, toVersion = upstreamVersion cfg,
                               direction = DirRequest, timeout = None \<rparr> transformer of
                        (Inl e, t1) \<Rightarrow> (Throw e, [])
                      | (Inr transformResult, t1) \<Rightarrow>
                          if \<not> success transformResult
                          then (Return (createErrorResponse
                                          [(''error'', JStr ''Request transformation failed''),
                                           (''message'', JStr (str_or (error transformResult)
                                                                 ''Unknown transformation error''))]
                                          400 apiVer),
                                [Transformed DirRequest (body ctx) transformResult])
                          else (Continue (data transformResult,
                                          now + (case metrics transformResult of
                                                   None \<Rightarrow> 0 | Some m \<Rightarrow> durationMs m),
                                          t1),
                                [Transformed DirRequest (body ctx) transformResult]))))"

text \<open>Lines 119 to 137: the request for the upstream.\<close>

definition upstreamRequest :: "Env \<Rightarrow> Request \<Rightarrow> RequestContext \<Rightarrow> jsval \<Rightarrow> UpstreamRequest" where
  "upstreamRequest env rq ctx upstreamBody =
     \<lparr> up_base = UPSTREAM_API env,
       up_path = url_pathname ctx @ url_search ctx,
       up_method = http_method ctx,
       up_headers =
         [(''X-Forwarded-For'', str_or (req_headers rq ''cf-connecting-ip'') []),
          (''X-Request-ID'', requestId ctx)]
         @ (if truthy upstreamBody then [(''Content-Type'', ''application/json'')] else []),
       up_body = (if truthy upstreamBody then Some upstreamBody else None) \<rparr>"

text \<open>
  Lines 141 to 206: the upstream's response is passed through when it is not JSON;
  otherwise the response leg runs and the JSON response is built.
\<close>

definition fetch_responseLeg ::
  "'c JsonataLib \<Rightarrow> int \<Rightarrow> RequestContext \<Rightarrow> TransformationConfig \<Rightarrow> string option
     \<Rightarrow> VersionTransformation \<Rightarrow> 'c JsonataTransformer \<Rightarrow> UpstreamResponse
     \<Rightarrow> Response flow \<times> event list" where
  "fetch_responseLeg lib now ctx cfg apiVer versionTransform transformer upstreamResponse =
     (if \<not> (case map_of (ur_headers upstreamResponse) ''content-type'' of
               None \<Rightarrow> False
             | Some ct \<Rightarrow> str_includes ct ''application/json'')
      then (Return \<lparr> resp_body = Passthrough (ur_stream upstreamResponse),
                      resp_status = ur_status upstreamResponse,
                      resp_headers =
                        Map_set ''X-Request-ID'' (requestId ctx)
                          (Map_set ''X-API-Version'' (key_of apiVer)
                             (ur_headers upstreamResponse)) \<rparr>, [])
      else
        (let responseData = (case ur_json upstreamResponse of Inr v \<Rightarrow> v | Inl e \<Rightarrow> JNull);
             respond = (\<lambda>transformedResponse.
               \<lparr> resp_body = JsonText transformedResponse,
                 resp_status = ur_status upstreamResponse,
                 resp_headers =
                   [(''Content-Type'', ''application/json''),
                    (''X-API-Version'', key_of apiVer),
                    (''X-Upstream-Version'', key_of (upstreamVersion cfg)),
                    (''X-Request-ID'', requestId ctx),
                    (''X-Powered-By'', ''JSONata-API-Gateway''),
                    (''Access-Control-Allow-Origin'', ''*'')] \<rparr>)
         in if \<not> truthy responseData then (Return (respond responseData), [])
            else if \<not> (apiVer \<noteq> upstreamVersion cfg) then (Return (respond responseData), [])
            else (case response versionTransform of
                    None \<Rightarrow> (Throw (JsError ''Cannot read properties of undefined (reading 'expression')''), [])
                  | Some leg \<Rightarrow>
                      if \<not> (expression leg \<noteq> Some ''$'') then (Return (respond responseData), [])
                      else (case transform lib now responseData leg
                                   \<lparr> fromVersion = upstreamVersion cfg, toVersion = apiVer,
                                     direction = DirResponse, timeout = None \<rparr> transformer of
                              (Inl e, t1) \<Rightarrow> (Throw e, [])
                            | (Inr transformResult, t1) \<Rightarrow>
                                (Return (respond (if \<not> success transformResult then responseData
                                                  else data transformResult)),
                                 [Transformed DirResponse responseData transformResult])))))"

text \<open>
  Lines 81 to 206 together: the request leg, the call of the upstream, the response leg.
  The upstream's answer arrives some milliseconds after the request leg is done.
\<close>

definition fetch_forward ::
  "upstream \<Rightarrow> 'c JsonataLib \<Rightarrow> Env \<Rightarrow> Request \<Rightarrow> int \<Rightarrow> RequestContext
     \<Rightarrow> TransformationConfig \<Rightarrow> string option \<Rightarrow> VersionTransformation
     \<Rightarrow> 'c JsonataTransformer \<Rightarrow> Response flow \<times> event list" where
  "fetch_forward fetch_upstream lib env rq now ctx cfg apiVer versionTransform transformer =
     (case fetch_requestLeg lib now ctx cfg apiVer versionTransform transformer of
        (Throw e, evs) \<Rightarrow> (Throw e, evs)
      | (Return r, evs) \<Rightarrow> (Return r, evs)
      | (Continue (upstreamBody, now1, t1), evs) \<Rightarrow>
          (case fetch_upstream (upstreamRequest env rq ctx upstreamBody) of
             (d, Inl e) \<Rightarrow>
               (Throw e, evs @ [Forwarded (upstreamRequest env rq ctx upstreamBody) (Inl e)])
           | (d, Inr upstreamResponse) \<Rightarrow>
               (case fetch_responseLeg lib (now1 + int d) ctx cfg apiVer versionTransform t1
                       upstreamResponse of
                  (fl, evs2) \<Rightarrow>
                    (fl, evs @ [Forwarded (upstreamRequest env rq ctx upstreamBody)
                                  (Inr upstreamResponse)] @ evs2))))"

text \<open>
  The \<open>try\<close> block of the handler, entered when the clock reads \<open>now\<close> with the request id
  \<open>rid\<close> drawn by \<open>crypto.randomUUID()\<close>.
\<close>

definition fetch_try ::
  "json_parse \<Rightarrow> upstream \<Rightarrow> 'c JsonataLib \<Rightarrow> Env \<Rightarrow> string \<Rightarrow> int \<Rightarrow> Request
     \<Rightarrow> Response flow \<times> event list" where
  "fetch_try parse fetch_upstream lib env rid now rq =
     (let ctx = parseRequestContext rq rid;
          configLoader = createConfigLoader env;
          transformer = (new_JsonataTransformer None
                           (parseInt10 (str_or (TRANSFORMATION_TIMEOUT_MS env) ''50''))
                         :: 'c JsonataTransformer)
      in case loadConfig parse now configLoader of
           (Inl e, l1) \<Rightarrow> (Throw e, [])
         | (Inr cfg, l1) \<Rightarrow>
             (let apiVer = (if apiVersion ctx \<noteq> [] then Some (apiVersion ctx)
                            else defaultVersion cfg)
              in case isSupportedVersion parse now (key_of apiVer) l1 of
                   (Inl e, l2) \<Rightarrow> (Throw e, [])
                 | (Inr supported, l2) \<Rightarrow>
                     if \<not> supported
                     then (case getSupportedVersions parse now (path ctx) l2 of
                             (Inl e, l3) \<Rightarrow> (Throw e, [])
                           | (Inr vs, l3) \<Rightarrow>
                               (Return (createErrorResponse
                                          [(''error'', JStr ''Unsupported API version''),
                                           (''message'', JStr (''Version '' @ [CHR 0x27]
                                                               @ key_of apiVer @ [CHR 0x27]
                                                               @ '' is not supported'')),
                                           (''supportedVersions'', JArr (map JStr vs))]
                                          400 apiVer), []))
                     else (case getVersionTransformation parse now (key_of apiVer) l2 of
                             (Inl e, l3) \<Rightarrow> (Throw e, [])
                           | (Inr None, l3) \<Rightarrow>
                               (Return (createErrorResponse
                                          [(''error'', JStr ''Configuration error''),
                                           (''message'', JStr (''No transformation found for version ''
                                                               @ [CHR 0x27] @ key_of apiVer
                                                               @ [CHR 0x27]))]
                                          500 apiVer), [])
                           | (Inr (Some versionTransform), l3) \<Rightarrow>
                               fetch_forward fetch_upstream lib env rq now ctx cfg apiVer
                                 versionTransform transformer)))"

text \<open>
  The handler: whatever the \<open>try\<close> block throws becomes the 500 response of the \<open>catch\<close>
  block, unless the thrown value has no text, in which case what the conversion throws
  leaves the handler. The result is the response (\<open>Inr\<close>) or what the handler throws
  (\<open>Inl\<close>), and the calls made.
\<close>

definition fetch ::
  "json_parse \<Rightarrow> upstream \<Rightarrow> 'c JsonataLib \<Rightarrow> Env \<Rightarrow> string \<Rightarrow> int \<Rightarrow> Request
     \<Rightarrow> (thrown + Response) \<times> event list" where
  "fetch parse fetch_upstream lib env rid now rq =
     (case fetch_try parse fetch_upstream lib env rid now rq of
        (Return r, evs) \<Rightarrow> (Inr r, evs)
      | (Continue r, evs) \<Rightarrow> (Inr r, evs)
      | (Throw e, evs) \<Rightarrow>
          (case errorMessage e of
             Inl e' \<Rightarrow> (Inl e', evs)
           | Inr msg \<Rightarrow>
               (Inr (createErrorResponse
                       [(''error'', JStr ''Internal server error''),
                        (''message'', JStr msg),
                        (''requestId'', JStr rid)]
                       500 None), evs)))"

section \<open>Histories of the expression cache\<close>

text \<open>
  To say which entry is the least recently touched, the cache is run through a history of
  operations, each with the clock reading at which it happens. An operation touches a key
  when it hands out or stores that key's entry: a \<open>get\<close> that hits, and a \<open>set\<close>.
  \<open>run\<close> keeps, next to the cache, the keys touched so far in the order of their last
  touch, the least recently touched first. As in \<open>compileExpression\<close>, a \<open>set\<close> inserts a
  key that is not in the cache; \<open>run\<close> is \<open>None\<close> on a history that does otherwise.
\<close>

datatype 'c cache_op = CacheGet string int | CacheSet string 'c int int

fun apply_op :: "'c cache_op \<Rightarrow> 'c ExpressionCache \<Rightarrow> 'c ExpressionCache" where
  "apply_op (CacheGet k now) c = snd (ExpressionCache_get now k c)"
| "apply_op (CacheSet k e life now) c = ExpressionCache_set now k e life c"

fun touched :: "'c cache_op \<Rightarrow> 'c ExpressionCache \<Rightarrow> string option" where
  "touched (CacheGet k now) c =
     (if fst (ExpressionCache_get now k c) = None then None else Some k)"
| "touched (CacheSet k e life now) c = Some k"

definition touch :: "string option \<Rightarrow> string list \<Rightarrow> string list" where
  "touch t order = (case t of None \<Rightarrow> order | Some k \<Rightarrow> removeAll k order @ [k])"

definition cache_keys :: "'c ExpressionCache \<Rightarrow> string list" where
  "cache_keys c = map fst (ec_cache c)"

fun inserts_fresh :: "'c cache_op \<Rightarrow> 'c ExpressionCache \<Rightarrow> bool" where
  "inserts_fresh (CacheGet k now) c = True"
| "inserts_fresh (CacheSet k e life now) c = (k \<noteq> [] \<and> k \<notin> set (cache_keys c))"

fun run ::
  "'c cache_op list \<Rightarrow> 'c ExpressionCache \<times> string list
     \<Rightarrow> ('c ExpressionCache \<times> string list) option" where
  "run [] s = Some s"
| "run (x # xs) (c, order) =
     (if inserts_fresh x c then run xs (apply_op x c, touch (touched x c) order) else None)"

text \<open>The keys of \<open>order\<close> that are in the cache, least recently touched first.\<close>

definition present :: "'c ExpressionCache \<Rightarrow> string list \<Rightarrow> string list" where
  "present c order = filter (\<lambda>k. k \<in> set (cache_keys c)) order"

text \<open>
  The invariant of a history: the cache lists its keys in the order of their last touch,
  no key is empty, and the capacity is kept.
\<close>

definition lru_inv :: "int \<Rightarrow> 'c ExpressionCache \<Rightarrow> string list \<Rightarrow> bool" where
  "lru_inv N c order =
     (distinct order \<and> cache_keys c = present c order \<and> [] \<notin> set (cache_keys c)
      \<and> ec_maxSize c = N \<and> (1 \<le> N \<longrightarrow> int (length (cache_keys c)) \<le> N))"

text \<open>
  A history on a cache of capacity two, and the cache it leads to: \<open>a\<close> is inserted, then
  \<open>b\<close>, then \<open>a\<close> is read.
\<close>

definition lru_history :: "nat cache_op list" where
  "lru_history = [CacheSet ''a'' 0 1000 0, CacheSet ''b'' 0 1000 1, CacheGet ''a'' 2]"

definition lru_cache :: "nat ExpressionCache" where
  "lru_cache =
     \<lparr> ec_cache = [(''b'', \<lparr> entry_expression = 0, entry_cachedAt = 1, entry_ttl = 1000 \<rparr>),
                   (''a'', \<lparr> entry_expression = 0, entry_cachedAt = 0, entry_ttl = 1000 \<rparr>)],
       ec_maxSize = 2 \<rparr>"

section \<open>Example inputs\<close>

text \<open>
  A library whose compiled form of a source is the source itself, so that compiling is
  injective, and whose evaluation returns the source that was run.
\<close>

definition echo_lib :: "string JsonataLib" where
  "echo_lib = \<lparr> jsonata = (\<lambda>src. Inr src), evaluate = (\<lambda>compiled dat. (0, Inr (JStr compiled))) \<rparr>"

text \<open>Two sources of 101 characters that differ in the last one only.\<close>

definition source_a :: string where
  "source_a = replicate 100 (CHR ''a'') @ ''1''"

definition source_b :: string where
  "source_b = replicate 100 (CHR ''a'') @ ''2''"

text \<open>A library whose every evaluation takes 100 ms and then returns the input.\<close>

definition slow_lib :: "string JsonataLib" where
  "slow_lib = \<lparr> jsonata = (\<lambda>src. Inr src), evaluate = (\<lambda>compiled dat. (100, Inr dat)) \<rparr>"

text \<open>
  A library that rejects the source \<open>{ invalid syntax\<close>, fails to evaluate the source
  \<open>$error()\<close>, and otherwise returns the input.
\<close>

definition strict_lib :: "string JsonataLib" where
  "strict_lib =
     \<lparr> jsonata = (\<lambda>src. if src = ''{ invalid syntax'' then Inl (JsError ''Syntax error'')
                          else Inr src),
       evaluate = (\<lambda>compiled dat. if compiled = ''$error()''
                                    then (1, Inl (NonError ''[object Object]''))
                                    else (1, Inr dat)) \<rparr>"

text \<open>
  Three libraries that compile every source and whose every evaluation throws: a plain
  object with the properties \<open>code\<close> and \<open>message\<close>, which \<open>String\<close> converts to
  \<open>[object Object]\<close>; an \<open>Error\<close> with the empty message; and an object without
  \<open>toString\<close>, on which \<open>String\<close> throws a \<open>TypeError\<close>.
\<close>

definition object_lib :: "string JsonataLib" where
  "object_lib =
     \<lparr> jsonata = (\<lambda>src. Inr src),
       evaluate = (\<lambda>compiled dat. (1, Inl (NonError ''[object Object]''))) \<rparr>"

definition empty_message_lib :: "string JsonataLib" where
  "empty_message_lib =
     \<lparr> jsonata = (\<lambda>src. Inr src),
       evaluate = (\<lambda>compiled dat. (1, Inl (JsError []))) \<rparr>"

definition unprintable_lib :: "string JsonataLib" where
  "unprintable_lib =
     \<lparr> jsonata = (\<lambda>src. Inr src),
       evaluate = (\<lambda>compiled dat.
         (1, Inl (Unprintable (JsError ''Cannot convert object to primitive value'')))) \<rparr>"

text \<open>An expression with the given source, and the context of a request leg from \<open>v1\<close> to \<open>v2\<close>.\<close>

definition request_context :: TransformContext where
  "request_context =
     \<lparr> fromVersion = Some ''v1'', toVersion = Some ''v2'', direction = DirRequest,
       timeout = None \<rparr>"

definition source_expr :: "string \<Rightarrow> TransformationExpression" where
  "source_expr src = \<lparr> expression = Some src, cacheTtl = None, description = None \<rparr>"

section \<open>The source a reference resolves to\<close>

text \<open>
  What a lookup makes of a leg's source: a source that starts with \<open>kv:\<close> becomes the text
  the store holds under the rest of it, when the read succeeds with a non-empty text;
  every other source stays as it is.
\<close>

definition resolved_source :: "ConfigLoader \<Rightarrow> string \<Rightarrow> string" where
  "resolved_source l src =
     (if take 3 src = ''kv:''
      then (case loadExpression l (drop 3 src) of
              None \<Rightarrow> src
            | Some e \<Rightarrow> if e \<noteq> [] then e else src)
      else src)"

section \<open>An invariant of the loader\<close>

text \<open>The loader's cache slot, when filled, holds a document that passes \<open>validateConfig\<close>.\<close>

definition loader_ok :: "ConfigLoader \<Rightarrow> bool" where
  "loader_ok l =
     (case cl_cache l of None \<Rightarrow> True | Some c \<Rightarrow> validateConfig (Some (config c)) = Inr ())"

section \<open>Documents the specification calls invalid\<close>

text \<open>
  In the specification's words a document is invalid when it lacks \<open>schemaVersion\<close> (the
  field \<open>version\<close>), lacks \<open>defaultVersion\<close>, has a missing or empty \<open>transformations\<close> map,
  or has a version entry that lacks a leg or has a leg with empty source: \<open>spec_invalid\<close>.
  \<open>rejected_doc\<close> describes the documents the code turns away: a field that is present
  and empty counts as missing, and an empty map does not count.
\<close>

definition leg_missing :: "TransformationExpression option \<Rightarrow> bool" where
  "leg_missing leg = (case leg of None \<Rightarrow> True | Some x \<Rightarrow> \<not> str_truthy (expression x))"

definition entry_incomplete :: "string \<times> VersionTransformation \<Rightarrow> bool" where
  "entry_incomplete p = (leg_missing (request (snd p)) \<or> leg_missing (response (snd p)))"

definition spec_invalid :: "TransformationConfig \<Rightarrow> bool" where
  "spec_invalid cfg =
     (version cfg = None \<or> defaultVersion cfg = None
      \<or> (case transformations cfg of
            None \<Rightarrow> True
          | Some ts \<Rightarrow> ts = [] \<or> list_ex entry_incomplete ts))"

definition rejected_doc :: "TransformationConfig \<Rightarrow> bool" where
  "rejected_doc cfg =
     (\<not> str_truthy (version cfg) \<or> \<not> str_truthy (defaultVersion cfg)
      \<or> (case transformations cfg of
            None \<Rightarrow> True
          | Some ts \<Rightarrow> list_ex entry_incomplete ts))"

text \<open>
  The store behaviours under which \<open>loadFromKV\<close> has nothing to return: the read fails,
  the key is missing or holds the empty text, the text is malformed JSON, or the document
  is \<open>null\<close> or one the code turns away.
\<close>

definition falls_back :: "json_parse \<Rightarrow> ConfigLoader \<Rightarrow> bool" where
  "falls_back parse l =
     (case TRANSFORMATIONS (cl_env l) ''config:main'' of
        Inl e \<Rightarrow> True
      | Inr None \<Rightarrow> True
      | Inr (Some stored) \<Rightarrow>
          stored = []
          \<or> (case parse stored of
                Inl e \<Rightarrow> True
              | Inr None \<Rightarrow> True
              | Inr (Some cfg) \<Rightarrow> rejected_doc cfg))"

section \<open>Example stores, documents and requests\<close>

text \<open>
  Stores for the examples: one that holds the given texts, one whose every read fails; and
  a \<open>JSON.parse\<close> that knows the given texts and throws on every other.
\<close>

definition store_env :: "(string \<times> string) list \<Rightarrow> Env" where
  "store_env kvs =
     \<lparr> TRANSFORMATIONS = (\<lambda>k. Inr (map_of kvs k)), UPSTREAM_API = ''https://api.example.com'',
       LOG_LEVEL = None, TRANSFORMATION_TIMEOUT_MS = None, CACHE_TTL_SECONDS = None \<rparr>"

definition failing_env :: Env where
  "failing_env =
     \<lparr> TRANSFORMATIONS = (\<lambda>k. Inl (JsError ''KV unavailable'')),
       UPSTREAM_API = ''https://api.example.com'',
       LOG_LEVEL = None, TRANSFORMATION_TIMEOUT_MS = None, CACHE_TTL_SECONDS = None \<rparr>"

definition parse_table :: "(string \<times> TransformationConfig option) list \<Rightarrow> json_parse" where
  "parse_table tbl s =
     (case map_of tbl s of
        Some doc \<Rightarrow> Inr doc
      | None \<Rightarrow> Inl (JsError ''Unexpected token in JSON''))"

text \<open>A document with an empty \<open>transformations\<close> map, and one without \<open>defaultVersion\<close>.\<close>

definition empty_map_doc :: TransformationConfig where
  "empty_map_doc =
     \<lparr> version = Some ''1.0.0'', defaultVersion = Some ''v2'', upstreamVersion = Some ''v2'',
       transformations = Some [], routing = None \<rparr>"

definition no_default_doc :: TransformationConfig where
  "no_default_doc =
     \<lparr> version = Some ''1.0.0'', defaultVersion = None, upstreamVersion = Some ''v2'',
       transformations = Some
         [(''v1'', \<lparr> request = Some (source_expr ''$''), response = Some (source_expr ''$''),
                    targetVersion = None \<rparr>)],
       routing = None \<rparr>"

text \<open>The stored texts of the example documents.\<close>

definition empty_map_text :: string where
  "empty_map_text =
     ''{'' @ [CHR 0x22] @ ''version'' @ [CHR 0x22] @ '':'' @ [CHR 0x22] @ ''1.0.0'' @
     [CHR 0x22] @ '','' @ [CHR 0x22] @ ''defaultVersion'' @ [CHR 0x22] @ '':'' @
     [CHR 0x22] @ ''v2'' @ [CHR 0x22] @ '','' @ [CHR 0x22] @ ''upstreamVersion'' @
     [CHR 0x22] @ '':'' @ [CHR 0x22] @ ''v2'' @ [CHR 0x22] @ '','' @ [CHR 0x22] @
     ''transformations'' @ [CHR 0x22] @ '':{}}''"

definition no_default_text :: string where
  "no_default_text =
     ''{'' @ [CHR 0x22] @ ''version'' @ [CHR 0x22] @ '':'' @ [CHR 0x22] @ ''1.0.0'' @
     [CHR 0x22] @ '','' @ [CHR 0x22] @ ''upstreamVersion'' @ [CHR 0x22] @ '':'' @
     [CHR 0x22] @ ''v2'' @ [CHR 0x22] @ '','' @ [CHR 0x22] @ ''transformations'' @
     [CHR 0x22] @ '':{'' @ [CHR 0x22] @ ''v1'' @ [CHR 0x22] @ '':{'' @ [CHR 0x22] @
     ''request'' @ [CHR 0x22] @ '':{'' @ [CHR 0x22] @ ''expression'' @ [CHR 0x22] @ '':'' @
     [CHR 0x22] @ ''$'' @ [CHR 0x22] @ ''},'' @ [CHR 0x22] @ ''response'' @ [CHR 0x22] @
     '':{'' @ [CHR 0x22] @ ''expression'' @ [CHR 0x22] @ '':'' @ [CHR 0x22] @ ''$'' @
     [CHR 0x22] @ ''}}}}''"

definition ref_text :: string where
  "ref_text =
     ''{'' @ [CHR 0x22] @ ''version'' @ [CHR 0x22] @ '':'' @ [CHR 0x22] @ ''1.0.0'' @
     [CHR 0x22] @ '','' @ [CHR 0x22] @ ''defaultVersion'' @ [CHR 0x22] @ '':'' @
     [CHR 0x22] @ ''v2'' @ [CHR 0x22] @ '','' @ [CHR 0x22] @ ''upstreamVersion'' @
     [CHR 0x22] @ '':'' @ [CHR 0x22] @ ''v2'' @ [CHR 0x22] @ '','' @ [CHR 0x22] @
     ''transformations'' @ [CHR 0x22] @ '':{'' @ [CHR 0x22] @ ''v1'' @ [CHR 0x22] @
     '':{'' @ [CHR 0x22] @ ''request'' @ [CHR 0x22] @ '':{'' @ [CHR 0x22] @
     ''expression'' @ [CHR 0x22] @ '':'' @ [CHR 0x22] @
     ''kv:transformations/v1-to-v2-request.jsonata'' @ [CHR 0x22] @ ''},'' @ [CHR 0x22] @
     ''response'' @ [CHR 0x22] @ '':{'' @ [CHR 0x22] @ ''expression'' @ [CHR 0x22] @
     '':'' @ [CHR 0x22] @ ''$.result'' @ [CHR 0x22] @ ''}}}}''"

text \<open>
  A document whose request leg for \<open>v1\<close> is a reference into the store, the store that holds
  it, the same store after the referenced text was replaced, and the transformation with
  the reference resolved against the first store.
\<close>

definition ref_unresolved :: VersionTransformation where
  "ref_unresolved =
     \<lparr> request = Some (source_expr ''kv:transformations/v1-to-v2-request.jsonata''),
       response = Some (source_expr ''$.result''), targetVersion = None \<rparr>"

definition ref_doc :: TransformationConfig where
  "ref_doc =
     \<lparr> version = Some ''1.0.0'', defaultVersion = Some ''v2'', upstreamVersion = Some ''v2'',
       transformations = Some
         [(''v1'', ref_unresolved)],
       routing = None \<rparr>"

definition ref_store :: "(string \<times> string) list" where
  "ref_store =
     [(''config:main'', ref_text),
      (''transformations/v1-to-v2-request.jsonata'', ''$.payload'')]"

definition ref_store_changed :: "(string \<times> string) list" where
  "ref_store_changed =
     [(''config:main'', ref_text),
      (''transformations/v1-to-v2-request.jsonata'', ''$.other'')]"

definition ref_resolved :: VersionTransformation where
  "ref_resolved =
     \<lparr> request = Some (source_expr ''$.payload''), response = Some (source_expr ''$.result''),
       targetVersion = None \<rparr>"

text \<open>The loader after it loaded \<open>ref_doc\<close> from \<open>ref_store\<close> at time 0, and its cache slot.\<close>

definition ref_parse :: json_parse where
  "ref_parse = parse_table [(ref_text, Some ref_doc)]"

definition ref_loaded :: ConfigLoader where
  "ref_loaded = snd (loadConfig ref_parse 0 (createConfigLoader (store_env ref_store)))"

definition ref_slot :: ConfigCache where
  "ref_slot = \<lparr> config = ref_doc, cachedAt = 0, ttl = Some 3600000 \<rparr>"


text \<open>
  A \<open>POST\<close> of the JSON body \<open>b\<close> to \<open>/users\<close> by a \<open>v1\<close> client, the context the worker
  derives from it, and an upstream that answers after 20 ms with status 200 and the JSON
  body \<open>{"id": 1}\<close>.
\<close>

definition json_headers :: "string \<Rightarrow> string option" where
  "json_headers name =
     (if name = ''api-version'' then Some ''v1''
      else if name = ''content-type'' then Some ''application/json''
      else None)"

definition post_request :: "jsval \<Rightarrow> Request" where
  "post_request b =
     \<lparr> req_method = ''POST'', req_headers = json_headers, req_pathname = ''/users'',
       req_search = [], req_searchParams = [], req_json = Inr b \<rparr>"

definition post_context :: "jsval \<Rightarrow> string \<Rightarrow> RequestContext" where
  "post_context b rid =
     \<lparr> url_pathname = ''/users'', url_search = [], http_method = ''POST'',
       headers = json_headers, apiVersion = ''v1'', path = ''/users'', body = b,
       requestId = rid \<rparr>"

definition upstream_response :: UpstreamResponse where
  "upstream_response =
     \<lparr> ur_status = 200, ur_headers = [(''content-type'', ''application/json'')],
       ur_json = Inr (JObj [(''id'', JNum 1)]), ur_stream = [] \<rparr>"

definition upstream_ok :: upstream where
  "upstream_ok ureq = (20, Inr upstream_response)"








text \<open>
  The loader once it has fallen back to the built-in default at time 0, and the default's
  entry for \<open>v1\<close>.
\<close>

definition default_slot :: ConfigCache where
  "default_slot = \<lparr> config = getDefaultConfig, cachedAt = 0, ttl = Some 3600000 \<rparr>"

definition default_loader :: ConfigLoader where
  "default_loader = \<lparr> cl_cache = Some default_slot, cl_env = failing_env \<rparr>"

definition default_v1 :: VersionTransformation where
  "default_v1 =
     \<lparr> request = Some \<lparr> expression = Some v1_request_source, cacheTtl = Some 3600,
                        description = Some ''Transform v1 request to v2 format'' \<rparr>,
       response = Some \<lparr> expression = Some v1_response_source, cacheTtl = Some 3600,
                         description = Some ''Transform v2 response back to v1 format'' \<rparr>,
       targetVersion = Some ''v2'' \<rparr>"

section \<open>Properties of the expression cache\<close>

lemma keys_Map_delete: "map fst (Map_delete k es) = removeAll k (map fst es)"
  by (induction es) (auto simp: Map_delete_def)

lemma Map_set_fresh: "k \<notin> set (map fst es) \<Longrightarrow> Map_set k v es = es @ [(k, v)]"
  by (induction es) auto

lemma map_of_keys: "map_of es k = Some e \<Longrightarrow> k \<in> set (map fst es)"
  by (induction es) (auto split: if_splits)

text \<open>\<open>sub_order K order\<close>: the keys \<open>K\<close> are listed as \<open>order\<close> lists them.\<close>

lemma sub_order_distinct:
  "distinct order \<Longrightarrow> K = filter (\<lambda>x. x \<in> set K) order \<Longrightarrow> distinct K"
  by (metis distinct_filter)

lemma sub_order_remove:
  assumes "K = filter (\<lambda>x. x \<in> set K) order"
  shows "removeAll k K = filter (\<lambda>x. x \<in> set (removeAll k K)) order"
proof -
  have "filter (\<lambda>x. x \<in> set (removeAll k K)) order
        = filter (\<lambda>x. x \<noteq> k) (filter (\<lambda>x. x \<in> set K) order)"
    by (auto intro: filter_cong)
  also have "\<dots> = filter (\<lambda>x. x \<noteq> k) K"
    using assms by (rule arg_cong[OF sym])
  also have "\<dots> = removeAll k K"
    by (induction K) auto
  finally show ?thesis by simp
qed

lemma sub_order_snoc:
  assumes "K = filter (\<lambda>x. x \<in> set K) order" and "k \<notin> set K"
  shows "K @ [k] = filter (\<lambda>x. x \<in> set (K @ [k])) (removeAll k order @ [k])"
proof -
  have "filter (\<lambda>x. x \<in> set (K @ [k])) (removeAll k order)
        = filter (\<lambda>x. x \<in> set K) (removeAll k order)"
    by (rule filter_cong) auto
  also have "\<dots> = filter (\<lambda>x. x \<in> set K) order"
    using assms(2) by (induction order) auto
  also have "\<dots> = K"
    using assms(1) by (rule sym)
  finally show ?thesis by simp
qed

lemma sub_order_tl:
  assumes "distinct order" and "K = filter (\<lambda>x. x \<in> set K) order"
  shows "tl K = filter (\<lambda>x. x \<in> set (tl K)) order"
proof (cases K)
  case Nil
  then show ?thesis using assms(2) by simp
next
  case (Cons h T)
  have "distinct K" by (rule sub_order_distinct[OF assms])
  then have "removeAll h K = T" using Cons by simp
  then show ?thesis using sub_order_remove[OF assms(2), of h] Cons by simp
qed

text \<open>The keys after a \<open>get\<close> and after a \<open>set\<close> of a new key.\<close>

lemma get_keys:
  "cache_keys (snd (ExpressionCache_get now k c)) =
     (case map_of (ec_cache c) k of
        None \<Rightarrow> cache_keys c
      | Some e \<Rightarrow> if now - entry_cachedAt e > entry_ttl e then removeAll k (cache_keys c)
                  else removeAll k (cache_keys c) @ [k])"
  by (auto simp: ExpressionCache_get_def cache_keys_def keys_Map_delete Map_set_fresh
           split: option.splits)

lemma get_touched:
  "touched (CacheGet k now) c =
     (case map_of (ec_cache c) k of
        None \<Rightarrow> None
      | Some e \<Rightarrow> if now - entry_cachedAt e > entry_ttl e then None else Some k)"
  by (auto simp: ExpressionCache_get_def split: option.splits)

lemma get_hit:
  assumes "fst (ExpressionCache_get now k c) = Some x"
  shows "k \<in> set (cache_keys c)
         \<and> cache_keys (snd (ExpressionCache_get now k c)) = removeAll k (cache_keys c) @ [k]"
proof (cases "map_of (ec_cache c) k")
  case None
  then show ?thesis using assms by (simp add: ExpressionCache_get_def)
next
  case (Some e)
  then have "\<not> now - entry_cachedAt e > entry_ttl e"
    using assms by (auto simp: ExpressionCache_get_def split: if_splits)
  then have "cache_keys (snd (ExpressionCache_get now k c)) = removeAll k (cache_keys c) @ [k]"
    using Some by (simp add: get_keys)
  moreover have "k \<in> set (cache_keys c)"
    using map_of_keys[OF Some] by (simp add: cache_keys_def)
  ultimately show ?thesis by simp
qed

lemma set_keys:
  assumes "distinct (cache_keys c)" and "k \<notin> set (cache_keys c)"
  shows "cache_keys (ExpressionCache_set now k e life c) =
     (if int (length (ec_cache c)) \<ge> ec_maxSize c \<and> cache_keys c \<noteq> [] \<and> hd (cache_keys c) \<noteq> []
      then tl (cache_keys c) @ [k] else cache_keys c @ [k])"
proof (cases "ec_cache c")
  case Nil
  then show ?thesis by (simp add: ExpressionCache_set_def cache_keys_def)
next
  case (Cons p ps)
  have nin: "fst p \<notin> set (map fst ps)" using assms(1) Cons by (simp add: cache_keys_def)
  have del: "map fst (Map_delete (fst p) (p # ps)) = map fst ps"
    using nin by (simp add: keys_Map_delete)
  have k1: "k \<notin> set (map fst (Map_delete (fst p) (p # ps)))"
    using assms(2) Cons del by (simp add: cache_keys_def)
  have k2: "k \<notin> set (map fst (p # ps))"
    using assms(2) Cons by (simp add: cache_keys_def)
  have ne: "fst p \<noteq> k" using k2 by auto
  have k3: "k \<notin> set (map fst ps)" using k2 by auto
  have a: "map fst (Map_set k v (Map_delete (fst p) (p # ps))) = map fst ps @ [k]"
    for v :: "'a CacheEntry"
    using Map_set_fresh[OF k1, of v] del by simp
  have b: "map fst (Map_set k v (p # ps)) = fst p # map fst ps @ [k]"
    for v :: "'a CacheEntry"
    using Map_set_fresh[OF k3, of v] ne by simp
  show ?thesis
    using Cons a b
    by (simp add: ExpressionCache_set_def cache_keys_def Let_def del: Map_set.simps)
qed

lemma lru_inv_distinct: "lru_inv N c order \<Longrightarrow> distinct (cache_keys c)"
  unfolding lru_inv_def present_def by (metis distinct_filter)

lemma maxSize_get: "ec_maxSize (snd (ExpressionCache_get now k c)) = ec_maxSize c"
  by (simp add: ExpressionCache_get_def split: option.splits)

lemma maxSize_set: "ec_maxSize (ExpressionCache_set now k e life c) = ec_maxSize c"
  by (simp add: ExpressionCache_set_def Let_def)

lemma length_removeAll_distinct:
  "distinct K \<Longrightarrow> k \<in> set K \<Longrightarrow> Suc (length (removeAll k K)) = length K"
  by (induction K) auto

lemma lru_invI:
  assumes "distinct order" and "cache_keys c = filter (\<lambda>x. x \<in> set (cache_keys c)) order"
    and "[] \<notin> set (cache_keys c)" and "ec_maxSize c = N"
    and "1 \<le> N \<Longrightarrow> int (length (cache_keys c)) \<le> N"
  shows "lru_inv N c order"
  using assms by (simp add: lru_inv_def present_def)

lemma lru_inv_get:
  assumes "lru_inv N c order"
  shows "lru_inv N (apply_op (CacheGet k now) c) (touch (touched (CacheGet k now) c) order)"
proof -
  have d: "distinct order" and s: "cache_keys c = filter (\<lambda>x. x \<in> set (cache_keys c)) order"
    and e: "[] \<notin> set (cache_keys c)" and m: "ec_maxSize c = N"
    and n: "1 \<le> N \<Longrightarrow> int (length (cache_keys c)) \<le> N"
    using assms by (simp_all add: lru_inv_def present_def)
  have dk: "distinct (cache_keys c)" by (rule lru_inv_distinct[OF assms])
  have m': "ec_maxSize (apply_op (CacheGet k now) c) = N" using m by (simp add: maxSize_get)
  show ?thesis
  proof (cases "map_of (ec_cache c) k")
    case None
    have "apply_op (CacheGet k now) c = c" using None by (simp add: ExpressionCache_get_def)
    moreover have "touch (touched (CacheGet k now) c) order = order"
      using None by (simp add: get_touched touch_def del: touched.simps)
    ultimately show ?thesis using assms by simp
  next
    case (Some en)
    then have kin: "k \<in> set (cache_keys c)" using map_of_keys[OF Some] by (simp add: cache_keys_def)
    show ?thesis
    proof (cases "now - entry_cachedAt en > entry_ttl en")
      case True
      have k: "cache_keys (apply_op (CacheGet k now) c) = removeAll k (cache_keys c)"
        using Some True by (simp add: get_keys)
      have t: "touch (touched (CacheGet k now) c) order = order"
        using Some True by (simp add: get_touched touch_def del: touched.simps)
      have l: "length (removeAll k (cache_keys c)) \<le> length (cache_keys c)"
        by (simp add: length_removeAll_less_eq)
      show ?thesis
      proof (rule lru_invI)
        show "distinct (touch (touched (CacheGet k now) c) order)" unfolding t by (rule d)
        show "cache_keys (apply_op (CacheGet k now) c) =
              filter (\<lambda>x. x \<in> set (cache_keys (apply_op (CacheGet k now) c)))
                (touch (touched (CacheGet k now) c) order)"
          unfolding k t by (rule sub_order_remove[OF s])
        show "[] \<notin> set (cache_keys (apply_op (CacheGet k now) c))" unfolding k using e by simp
        show "ec_maxSize (apply_op (CacheGet k now) c) = N" by (rule m')
        show "int (length (cache_keys (apply_op (CacheGet k now) c))) \<le> N" if "1 \<le> N"
          unfolding k using n[OF that] l by linarith
      qed
    next
      case False
      have k: "cache_keys (apply_op (CacheGet k now) c) = removeAll k (cache_keys c) @ [k]"
        using Some False by (simp add: get_keys)
      have t: "touch (touched (CacheGet k now) c) order = removeAll k order @ [k]"
        using Some False by (simp add: get_touched touch_def del: touched.simps)
      have kn: "k \<noteq> []" using kin e by auto
      have l: "length (removeAll k (cache_keys c) @ [k]) = length (cache_keys c)"
        using length_removeAll_distinct[OF dk kin] by simp
      show ?thesis
      proof (rule lru_invI)
        show "distinct (touch (touched (CacheGet k now) c) order)"
          unfolding t using d by (simp add: distinct_removeAll)
        show "cache_keys (apply_op (CacheGet k now) c) =
              filter (\<lambda>x. x \<in> set (cache_keys (apply_op (CacheGet k now) c)))
                (touch (touched (CacheGet k now) c) order)"
          unfolding k t by (rule sub_order_snoc[OF sub_order_remove[OF s]]) simp
        show "[] \<notin> set (cache_keys (apply_op (CacheGet k now) c))"
          unfolding k using e kn by simp
        show "ec_maxSize (apply_op (CacheGet k now) c) = N" by (rule m')
        show "int (length (cache_keys (apply_op (CacheGet k now) c))) \<le> N" if "1 \<le> N"
          unfolding k l using n[OF that] .
      qed
    qed
  qed
qed

lemma lru_inv_set:
  assumes "lru_inv N c order" and "k \<notin> set (cache_keys c)" and "k \<noteq> []"
  shows "lru_inv N (apply_op (CacheSet k e life now) c)
           (touch (touched (CacheSet k e life now) c) order)"
proof -
  have d: "distinct order" and s: "cache_keys c = filter (\<lambda>x. x \<in> set (cache_keys c)) order"
    and em: "[] \<notin> set (cache_keys c)" and m: "ec_maxSize c = N"
    and n: "1 \<le> N \<Longrightarrow> int (length (cache_keys c)) \<le> N"
    using assms(1) by (simp_all add: lru_inv_def present_def)
  have dk: "distinct (cache_keys c)" by (rule lru_inv_distinct[OF assms(1)])
  have k': "k \<notin> set (tl (cache_keys c))" using assms(2) by (cases "cache_keys c") auto
  have e': "[] \<notin> set (tl (cache_keys c))" using em by (cases "cache_keys c") auto
  have t: "touch (touched (CacheSet k e life now) c) order = removeAll k order @ [k]"
    by (simp add: touch_def)
  have dt: "distinct (removeAll k order @ [k])" using d by (simp add: distinct_removeAll)
  have len: "length (ec_cache c) = length (cache_keys c)" by (simp add: cache_keys_def)
  have m': "ec_maxSize (apply_op (CacheSet k e life now) c) = N" using m by (simp add: maxSize_set)
  have hd_ne: "cache_keys c \<noteq> [] \<Longrightarrow> hd (cache_keys c) \<noteq> []"
    using em by (cases "cache_keys c") auto
  show ?thesis
  proof (cases "int (length (ec_cache c)) \<ge> ec_maxSize c \<and> cache_keys c \<noteq> []")
    case True
    then have full: "int (length (ec_cache c)) \<ge> ec_maxSize c \<and> cache_keys c \<noteq> []
                     \<and> hd (cache_keys c) \<noteq> []"
      using hd_ne by simp
    have k: "cache_keys (apply_op (CacheSet k e life now) c) = tl (cache_keys c) @ [k]"
      by (simp only: apply_op.simps set_keys[OF dk assms(2)] if_P[OF full])
    have l: "length (tl (cache_keys c) @ [k]) = length (cache_keys c)"
      using True by (cases "cache_keys c") auto
    show ?thesis
    proof (rule lru_invI)
      show "distinct (touch (touched (CacheSet k e life now) c) order)" unfolding t by (rule dt)
      show "cache_keys (apply_op (CacheSet k e life now) c) =
            filter (\<lambda>x. x \<in> set (cache_keys (apply_op (CacheSet k e life now) c)))
              (touch (touched (CacheSet k e life now) c) order)"
        unfolding k t by (rule sub_order_snoc[OF sub_order_tl[OF d s] k'])
      show "[] \<notin> set (cache_keys (apply_op (CacheSet k e life now) c))"
        unfolding k using e' assms(3) by simp
      show "ec_maxSize (apply_op (CacheSet k e life now) c) = N" by (rule m')
      show "int (length (cache_keys (apply_op (CacheSet k e life now) c))) \<le> N" if "1 \<le> N"
        unfolding k l using n[OF that] .
    qed
  next
    case False
    then have nf: "\<not> (int (length (ec_cache c)) \<ge> ec_maxSize c \<and> cache_keys c \<noteq> []
                     \<and> hd (cache_keys c) \<noteq> [])"
      by simp
    have k: "cache_keys (apply_op (CacheSet k e life now) c) = cache_keys c @ [k]"
      by (simp only: apply_op.simps set_keys[OF dk assms(2)] if_not_P[OF nf])
    show ?thesis
    proof (rule lru_invI)
      show "distinct (touch (touched (CacheSet k e life now) c) order)" unfolding t by (rule dt)
      show "cache_keys (apply_op (CacheSet k e life now) c) =
            filter (\<lambda>x. x \<in> set (cache_keys (apply_op (CacheSet k e life now) c)))
              (touch (touched (CacheSet k e life now) c) order)"
        unfolding k t by (rule sub_order_snoc[OF s assms(2)])
      show "[] \<notin> set (cache_keys (apply_op (CacheSet k e life now) c))"
        unfolding k using em assms(3) by simp
      show "ec_maxSize (apply_op (CacheSet k e life now) c) = N" by (rule m')
      show "int (length (cache_keys (apply_op (CacheSet k e life now) c))) \<le> N" if "1 \<le> N"
      proof (cases "cache_keys c = []")
        case True
        then show ?thesis unfolding k using that by simp
      next
        case ne: False
        then have "int (length (cache_keys c)) < N" using False len m by simp
        then show ?thesis unfolding k by simp
      qed
    qed
  qed
qed

lemma lru_inv_step:
  assumes "lru_inv N c order" and "inserts_fresh x c"
  shows "lru_inv N (apply_op x c) (touch (touched x c) order)"
proof (cases x)
  case (CacheGet k now)
  then show ?thesis using lru_inv_get[OF assms(1)] by simp
next
  case (CacheSet k e life now)
  then show ?thesis using lru_inv_set[OF assms(1)] assms(2) by simp
qed

lemma lru_inv_run:
  "lru_inv N c order \<Longrightarrow> run ops (c, order) = Some (c', order') \<Longrightarrow> lru_inv N c' order'"
proof (induction ops arbitrary: c order)
  case Nil
  then show ?case by simp
next
  case (Cons x xs)
  then show ?case using lru_inv_step[of N c order x] by (auto split: if_splits)
qed

lemma lru_inv_new: "lru_inv N (new_ExpressionCache N) []"
  by (simp add: lru_inv_def new_ExpressionCache_def cache_keys_def present_def)

text \<open>
  Claim C7. After any history that starts from the empty cache of capacity \<open>N\<close>, the cache
  lists its keys in the order of their last touch, the least recently touched first; a
  \<open>get\<close> that hits moves its key to the most recently used end; a \<open>set\<close> of a new key at
  capacity evicts exactly the first key of that order, the least recently touched one, and
  keeps the others; and for \<open>N\<close> of at least one the cache never holds more than \<open>N\<close>
  entries.
\<close>

theorem lru_evicts_least_recently_touched:
  assumes "run ops (new_ExpressionCache N, []) = Some (c, order)"
  shows "cache_keys c = present c order
         \<and> (\<forall>now k x. fst (ExpressionCache_get now k c) = Some x \<longrightarrow>
               cache_keys (snd (ExpressionCache_get now k c)) = removeAll k (cache_keys c) @ [k])
         \<and> (\<forall>now k e life.
               k \<noteq> [] \<and> k \<notin> set (cache_keys c) \<and> N \<le> int (length (cache_keys c))
               \<and> cache_keys c \<noteq> [] \<longrightarrow>
               cache_keys (ExpressionCache_set now k e life c) = tl (present c order) @ [k])
         \<and> (1 \<le> N \<longrightarrow> int (length (cache_keys c)) \<le> N)"
proof -
  have inv: "lru_inv N c order"
    by (rule lru_inv_run[OF lru_inv_new assms])
  have ord: "cache_keys c = present c order" using inv unfolding lru_inv_def by blast
  have dk: "distinct (cache_keys c)" by (rule lru_inv_distinct[OF inv])
  have em: "[] \<notin> set (cache_keys c)" and m: "ec_maxSize c = N"
    and n: "1 \<le> N \<longrightarrow> int (length (cache_keys c)) \<le> N"
    using inv unfolding lru_inv_def by blast+
  have hit: "cache_keys (snd (ExpressionCache_get now k c)) = removeAll k (cache_keys c) @ [k]"
    if "fst (ExpressionCache_get now k c) = Some x" for now k x
    using get_hit[OF that] by simp
  have evict: "cache_keys (ExpressionCache_set now k e life c) = tl (present c order) @ [k]"
    if h: "k \<noteq> [] \<and> k \<notin> set (cache_keys c) \<and> N \<le> int (length (cache_keys c))
           \<and> cache_keys c \<noteq> []" for now k e life
  proof -
    have "hd (cache_keys c) \<noteq> []" using em h by (cases "cache_keys c") auto
    then have full: "ec_maxSize c \<le> int (length (ec_cache c)) \<and> cache_keys c \<noteq> []
                     \<and> hd (cache_keys c) \<noteq> []"
      using h m by (simp add: cache_keys_def)
    have kn: "k \<notin> set (cache_keys c)" using h by simp
    have "cache_keys (ExpressionCache_set now k e life c) = tl (cache_keys c) @ [k]"
      by (simp only: set_keys[OF dk kn] if_P[OF full])
    then show ?thesis using ord by simp
  qed
  show ?thesis using ord hit evict n by blast
qed

text \<open>
  With capacity two: \<open>a\<close> is inserted, then \<open>b\<close>, then \<open>a\<close> is read. Inserting \<open>c\<close> evicts
  \<open>b\<close>, and \<open>a\<close>, the oldest insertion, survives.
\<close>

theorem lru_touched_entry_survives:
  "run lru_history (new_ExpressionCache 2, []) = Some (lru_cache, [''b'', ''a''])
   \<and> cache_keys (ExpressionCache_set 3 ''c'' 0 1000 lru_cache) = [''a'', ''c'']"
proof -
  have r: "run lru_history (new_ExpressionCache 2, []) = Some (lru_cache, [''b'', ''a''])"
    by (simp add: lru_history_def lru_cache_def new_ExpressionCache_def ExpressionCache_set_def
          ExpressionCache_get_def cache_keys_def touch_def Map_delete_def)
  have k: "cache_keys lru_cache = [''b'', ''a'']"
    by (simp add: lru_cache_def cache_keys_def)
  have "''c'' \<noteq> [] \<and> ''c'' \<notin> set (cache_keys lru_cache)
        \<and> 2 \<le> int (length (cache_keys lru_cache)) \<and> cache_keys lru_cache \<noteq> []"
    by (simp add: k)
  then have "cache_keys (ExpressionCache_set 3 ''c'' 0 1000 lru_cache)
             = tl (present lru_cache [''b'', ''a'']) @ [''c'']"
    using lru_evicts_least_recently_touched[OF r] by blast
  then show ?thesis using r by (simp add: present_def k)
qed

section \<open>Properties of the transformer\<close>

text \<open>
  Claim C1. The cache key is the first 100 characters of the source, so it does not
  distinguish two sources that agree there: \<open>source_a\<close> and \<open>source_b\<close> differ, have the
  same key, and after \<open>source_a\<close> is compiled, compiling \<open>source_b\<close> returns the compiled
  form of \<open>source_a\<close>.
\<close>

theorem cache_key_collision:
  "source_a \<noteq> source_b
   \<and> cacheKey source_a = cacheKey source_b
   \<and> (case compileExpression echo_lib 0 source_a 3600000 (new_JsonataTransformer None None) of
        (r1, t1) \<Rightarrow> r1 = Inr source_a
           \<and> fst (compileExpression echo_lib 0 source_b 3600000 t1) = Inr source_a)"
  by (simp add: source_a_def source_b_def cacheKey_def compileExpression_def echo_lib_def
        new_JsonataTransformer_def new_ExpressionCache_def num_or_def ExpressionCache_get_def
        ExpressionCache_set_def Map_delete_def)

text \<open>
  Claim C2. An evaluation of 100 ms under the default timeout of 50 ms: the timer is
  cleared before its callback can run, and \<open>transform\<close> returns the evaluation's result
  with \<open>success = true\<close> and a duration of 100 ms, not a timeout failure.
\<close>

theorem timeout_never_fires:
  "fst (transform slow_lib 0 (JStr ''payload'') (source_expr ''$'') request_context
          (new_JsonataTransformer None None))
   = Inr \<lparr> data = JStr ''payload'', success = True, error = None,
           metrics = Some \<lparr> durationMs = 100, m_fromVersion = Some ''v1'',
                            m_toVersion = Some ''v2'', m_direction = DirRequest \<rparr> \<rparr>"
  by (simp add: transform_def slow_lib_def source_expr_def request_context_def
        new_JsonataTransformer_def new_ExpressionCache_def num_or_def compileExpression_def
        cacheKey_def ExpressionCache_get_def ExpressionCache_set_def executeWithTimeout_def
        setTimeout_def clearTimeout_def)

lemma compile_miss_error:
  assumes "fst (ExpressionCache_get now (cacheKey src) (expressionCache t)) = None"
    and "jsonata lib src = Inl e"
  shows "fst (compileExpression lib now src life t)
         = Inl (case errorMessage e of
                  Inr m \<Rightarrow> JsError (''Failed to compile JSONata expression: '' @ m)
                | Inl e' \<Rightarrow> e')"
proof -
  obtain c1 where "ExpressionCache_get now (cacheKey src) (expressionCache t) = (None, c1)"
    using assms(1) by (cases "ExpressionCache_get now (cacheKey src) (expressionCache t)") simp
  then show ?thesis using assms(2) by (simp add: compileExpression_def split: sum.splits)
qed

lemma compile_error_printable:
  assumes "\<forall>s e. jsonata lib s = Inl e \<longrightarrow> (\<exists>m. errorMessage e = Inr m)"
    and "fst (compileExpression lib now src life t) = Inl e"
  shows "\<exists>m. errorMessage e = Inr m"
proof -
  obtain r c1 where g: "ExpressionCache_get now (cacheKey src) (expressionCache t) = (r, c1)"
    by (cases "ExpressionCache_get now (cacheKey src) (expressionCache t)")
  show ?thesis
  proof (cases r)
    case (Some cached)
    then show ?thesis using assms(2) g by (simp add: compileExpression_def)
  next
    case None
    show ?thesis
    proof (cases "jsonata lib src")
      case (Inr compiled)
      then show ?thesis using assms(2) g None by (simp add: compileExpression_def)
    next
      case (Inl x)
      then obtain m where "errorMessage x = Inr m" using assms(1) by blast
      then show ?thesis using assms(2) g None Inl by (auto simp: compileExpression_def)
    qed
  qed
qed

lemma transform_compile_error:
  assumes "expression transformExpr = Some src"
    and "fst (compileExpression lib now src (num_or (cacheTtl transformExpr) 3600 * 1000) t) = Inl e"
  shows "fst (transform lib now dat transformExpr ctx t) = transform_catch dat ctx 0 e"
proof -
  obtain t1 where
    "compileExpression lib now src (num_or (cacheTtl transformExpr) 3600 * 1000) t = (Inl e, t1)"
    using assms(2)
    by (cases "compileExpression lib now src (num_or (cacheTtl transformExpr) 3600 * 1000) t")
       simp
  then show ?thesis using assms(1) by (simp add: transform_def)
qed

lemma transform_evaluation_error:
  assumes "expression transformExpr = Some src"
    and "fst (compileExpression lib now src (num_or (cacheTtl transformExpr) 3600 * 1000) t)
         = Inr compiled"
    and "evaluate lib compiled dat = (d, Inl e)"
  shows "fst (transform lib now dat transformExpr ctx t) = transform_catch dat ctx (int d) e"
proof -
  obtain t1 where
    "compileExpression lib now src (num_or (cacheTtl transformExpr) 3600 * 1000) t
     = (Inr compiled, t1)"
    using assms(2)
    by (cases "compileExpression lib now src (num_or (cacheTtl transformExpr) 3600 * 1000) t")
       simp
  then show ?thesis using assms(1,3) by (simp add: transform_def executeWithTimeout_def Let_def)
qed

lemma transform_catch_failure:
  "transform_catch dat ctx duration e = Inr r \<Longrightarrow> \<not> success r \<and> data r = dat \<and> error r \<noteq> None"
  by (auto simp: transform_catch_def split: sum.splits)

lemma transform_cases:
  "(\<exists>duration e. fst (transform lib now dat transformExpr ctx t) = transform_catch dat ctx duration e
       \<and> (e = JsError ''Cannot read properties of undefined (reading 'substring')''
           \<or> (\<exists>src life. fst (compileExpression lib now src life t) = Inl e)
           \<or> (\<exists>compiled d. evaluate lib compiled dat = (d, Inl e))))
   \<or> (\<exists>r. fst (transform lib now dat transformExpr ctx t) = Inr r \<and> success r)"
proof (cases "expression transformExpr")
  case None
  then have "fst (transform lib now dat transformExpr ctx t)
             = transform_catch dat ctx 0
                 (JsError ''Cannot read properties of undefined (reading 'substring')'')"
    by (simp add: transform_def)
  then show ?thesis by blast
next
  case (Some src)
  let ?life = "num_or (cacheTtl transformExpr) 3600 * 1000"
  show ?thesis
  proof (cases "fst (compileExpression lib now src ?life t)")
    case (Inl e)
    from transform_compile_error[OF Some Inl] Inl show ?thesis by blast
  next
    case (Inr compiled)
    obtain d res where ev: "evaluate lib compiled dat = (d, res)"
      by (cases "evaluate lib compiled dat")
    show ?thesis
    proof (cases res)
      case (Inl e)
      from transform_evaluation_error[OF Some Inr ev[unfolded Inl]] ev Inl show ?thesis by blast
    next
      case (Inr v)
      obtain t1 where "compileExpression lib now src ?life t = (Inr compiled, t1)"
        using \<open>fst (compileExpression lib now src ?life t) = Inr compiled\<close>
        by (cases "compileExpression lib now src ?life t") simp
      then have "\<exists>r. fst (transform lib now dat transformExpr ctx t) = Inr r \<and> success r"
        using Some ev Inr by (simp add: transform_def executeWithTimeout_def Let_def)
      then show ?thesis by blast
    qed
  qed
qed

text \<open>
  Claim C5, as amended. An expression without source gives the outcome with
  \<open>success = false\<close>, the input as \<open>data\<close> and the message of the \<open>TypeError\<close> as error
  text. A compile error (the source is not cached and the compiler throws a value with
  the text \<open>m1\<close>) gives the outcome with \<open>success = false\<close>, the input as \<open>data\<close> and the
  error text \<open>Failed to compile JSONata expression: \<close> followed by \<open>m1\<close>; when the value
  the compiler throws has no text, the \<open>catch\<close> block of \<open>transform\<close> runs on what the
  conversion threw. An evaluation error gives the outcome with \<open>success = false\<close>, the
  input as \<open>data\<close> and the thrown value's text as error text, whatever that text is; when
  the thrown value has no text, what its conversion throws leaves \<open>transform\<close>. Every
  failure outcome has the input as \<open>data\<close> and carries an error text. As long as every
  value the library throws has a text, \<open>transform\<close> returns an outcome.
\<close>

theorem transform_failure_policy:
  "(expression transformExpr = None \<longrightarrow>
      fst (transform lib now dat transformExpr ctx t)
      = Inr \<lparr> data = dat, success = False,
              error = Some ''Cannot read properties of undefined (reading 'substring')'',
              metrics = Some \<lparr> durationMs = 0, m_fromVersion = fromVersion ctx,
                               m_toVersion = toVersion ctx, m_direction = direction ctx \<rparr> \<rparr>)
   \<and> (expression transformExpr = Some src
      \<and> fst (ExpressionCache_get now (cacheKey src) (expressionCache t)) = None
      \<and> jsonata lib src = Inl e1 \<longrightarrow>
      fst (transform lib now dat transformExpr ctx t)
      = (case errorMessage e1 of
           Inr m1 \<Rightarrow>
             Inr \<lparr> data = dat, success = False,
                   error = Some (''Failed to compile JSONata expression: '' @ m1),
                   metrics = Some \<lparr> durationMs = 0, m_fromVersion = fromVersion ctx,
                                    m_toVersion = toVersion ctx, m_direction = direction ctx \<rparr> \<rparr>
         | Inl e' \<Rightarrow> transform_catch dat ctx 0 e'))
   \<and> (expression transformExpr = Some src
      \<and> fst (compileExpression lib now src (num_or (cacheTtl transformExpr) 3600 * 1000) t)
         = Inr compiled
      \<and> evaluate lib compiled dat = (d, Inl e2) \<longrightarrow>
      fst (transform lib now dat transformExpr ctx t)
      = (case errorMessage e2 of
           Inr m2 \<Rightarrow>
             Inr \<lparr> data = dat, success = False, error = Some m2,
                   metrics = Some \<lparr> durationMs = int d, m_fromVersion = fromVersion ctx,
                                    m_toVersion = toVersion ctx, m_direction = direction ctx \<rparr> \<rparr>
         | Inl e' \<Rightarrow> Inl e'))
   \<and> (\<forall>r. fst (transform lib now dat transformExpr ctx t) = Inr r \<and> \<not> success r \<longrightarrow>
          data r = dat \<and> error r \<noteq> None)
   \<and> ((\<forall>s e. jsonata lib s = Inl e \<longrightarrow> (\<exists>m. errorMessage e = Inr m))
      \<and> (\<forall>c v n e. evaluate lib c v = (n, Inl e) \<longrightarrow> (\<exists>m. errorMessage e = Inr m)) \<longrightarrow>
      (\<exists>r. fst (transform lib now dat transformExpr ctx t) = Inr r))"
proof -
  let ?life = "num_or (cacheTtl transformExpr) 3600 * 1000"
  let ?res = "fst (transform lib now dat transformExpr ctx t)"
  have n: "?res
      = Inr \<lparr> data = dat, success = False,
              error = Some ''Cannot read properties of undefined (reading 'substring')'',
              metrics = Some \<lparr> durationMs = 0, m_fromVersion = fromVersion ctx,
                               m_toVersion = toVersion ctx, m_direction = direction ctx \<rparr> \<rparr>"
    if h: "expression transformExpr = None"
    using h by (simp add: transform_def transform_catch_def)
  have a: "?res
      = (case errorMessage e1 of
           Inr m1 \<Rightarrow>
             Inr \<lparr> data = dat, success = False,
                   error = Some (''Failed to compile JSONata expression: '' @ m1),
                   metrics = Some \<lparr> durationMs = 0, m_fromVersion = fromVersion ctx,
                                    m_toVersion = toVersion ctx, m_direction = direction ctx \<rparr> \<rparr>
         | Inl e' \<Rightarrow> transform_catch dat ctx 0 e')"
    if h: "expression transformExpr = Some src
      \<and> fst (ExpressionCache_get now (cacheKey src) (expressionCache t)) = None
      \<and> jsonata lib src = Inl e1"
  proof -
    from h have h1: "expression transformExpr = Some src"
      and h2: "fst (ExpressionCache_get now (cacheKey src) (expressionCache t)) = None"
      and h3: "jsonata lib src = Inl e1"
      by simp_all
    have "fst (compileExpression lib now src ?life t)
          = Inl (case errorMessage e1 of
                   Inr m \<Rightarrow> JsError (''Failed to compile JSONata expression: '' @ m)
                 | Inl e' \<Rightarrow> e')"
      by (rule compile_miss_error[OF h2 h3])
    from transform_compile_error[OF h1 this] show ?thesis
      by (simp add: transform_catch_def split: sum.splits)
  qed
  have b: "?res
      = (case errorMessage e2 of
           Inr m2 \<Rightarrow>
             Inr \<lparr> data = dat, success = False, error = Some m2,
                   metrics = Some \<lparr> durationMs = int d, m_fromVersion = fromVersion ctx,
                                    m_toVersion = toVersion ctx, m_direction = direction ctx \<rparr> \<rparr>
         | Inl e' \<Rightarrow> Inl e')"
    if h: "expression transformExpr = Some src
      \<and> fst (compileExpression lib now src ?life t) = Inr compiled
      \<and> evaluate lib compiled dat = (d, Inl e2)"
  proof -
    from h have h1: "expression transformExpr = Some src"
      and h2: "fst (compileExpression lib now src ?life t) = Inr compiled"
      and h3: "evaluate lib compiled dat = (d, Inl e2)"
      by simp_all
    have "?res = transform_catch dat ctx (int d) e2"
      by (rule transform_evaluation_error[OF h1 h2 h3])
    then show ?thesis by (simp add: transform_catch_def split: sum.splits)
  qed
  have c: "data r = dat \<and> error r \<noteq> None" if h: "?res = Inr r \<and> \<not> success r" for r
  proof -
    from transform_cases[of lib now dat transformExpr ctx t]
    consider (fail) duration x where "?res = transform_catch dat ctx duration x"
      | (ok) r' where "?res = Inr r'" "success r'"
      by blast
    then show ?thesis
    proof cases
      case fail
      then have "transform_catch dat ctx duration x = Inr r" using h by simp
      from transform_catch_failure[OF this] show ?thesis by simp
    next
      case ok
      then show ?thesis using h by simp
    qed
  qed
  have e: "\<exists>r. ?res = Inr r"
    if h: "(\<forall>s e. jsonata lib s = Inl e \<longrightarrow> (\<exists>m. errorMessage e = Inr m))
      \<and> (\<forall>c v n e. evaluate lib c v = (n, Inl e) \<longrightarrow> (\<exists>m. errorMessage e = Inr m))"
  proof -
    from transform_cases[of lib now dat transformExpr ctx t]
    consider (fail) duration x where "?res = transform_catch dat ctx duration x"
        "x = JsError ''Cannot read properties of undefined (reading 'substring')''
         \<or> (\<exists>src life. fst (compileExpression lib now src life t) = Inl x)
         \<or> (\<exists>compiled d. evaluate lib compiled dat = (d, Inl x))"
      | (ok) r where "?res = Inr r"
      by blast
    then show ?thesis
    proof cases
      case fail
      have "\<exists>m. errorMessage x = Inr m"
        using fail(2) h compile_error_printable[of lib now _ _ t x] by auto
      then show ?thesis using fail(1) by (auto simp: transform_catch_def)
    next
      case ok
      then show ?thesis by blast
    qed
  qed
  show ?thesis using n a b c e by blast
qed

text \<open>
  A source the compiler rejects with the message \<open>Syntax error\<close>, a source whose
  evaluation throws a plain object, and an expression without source: the three outcomes
  are failures that carry the input. Every value \<open>strict_lib\<close> throws has a text, so
  \<open>transform\<close> returns an outcome on every source.
\<close>

theorem transform_failure_policy_witness:
  "fst (transform strict_lib 0 (JNum 7) (source_expr ''{ invalid syntax'') request_context
          (new_JsonataTransformer None None))
   = Inr \<lparr> data = JNum 7, success = False,
           error = Some ''Failed to compile JSONata expression: Syntax error'',
           metrics = Some \<lparr> durationMs = 0, m_fromVersion = Some ''v1'',
                            m_toVersion = Some ''v2'', m_direction = DirRequest \<rparr> \<rparr>
   \<and> fst (transform strict_lib 0 (JNum 7) (source_expr ''$error()'') request_context
            (new_JsonataTransformer None None))
     = Inr \<lparr> data = JNum 7, success = False, error = Some ''[object Object]'',
             metrics = Some \<lparr> durationMs = 1, m_fromVersion = Some ''v1'',
                              m_toVersion = Some ''v2'', m_direction = DirRequest \<rparr> \<rparr>
   \<and> fst (transform strict_lib 0 (JNum 7)
            \<lparr> expression = None, cacheTtl = None, description = None \<rparr> request_context
            (new_JsonataTransformer None None))
     = Inr \<lparr> data = JNum 7, success = False,
             error = Some ''Cannot read properties of undefined (reading 'substring')'',
             metrics = Some \<lparr> durationMs = 0, m_fromVersion = Some ''v1'',
                              m_toVersion = Some ''v2'', m_direction = DirRequest \<rparr> \<rparr>
   \<and> (\<exists>r. fst (transform strict_lib 0 (JNum 7) (source_expr ''$.payload'') request_context
                 (new_JsonataTransformer None None)) = Inr r)"
proof -
  have h0: "expression \<lparr> expression = None, cacheTtl = None, description = None \<rparr> = None"
    by simp
  have h5: "(\<forall>s e. jsonata strict_lib s = Inl e \<longrightarrow> (\<exists>m. errorMessage e = Inr m))
      \<and> (\<forall>c v n e. evaluate strict_lib c v = (n, Inl e) \<longrightarrow> (\<exists>m. errorMessage e = Inr m))"
    by (auto simp: strict_lib_def split: if_splits)
  have c: "fst (transform strict_lib 0 (JNum 7)
            \<lparr> expression = None, cacheTtl = None, description = None \<rparr> request_context
            (new_JsonataTransformer None None))
     = Inr \<lparr> data = JNum 7, success = False,
             error = Some ''Cannot read properties of undefined (reading 'substring')'',
             metrics = Some \<lparr> durationMs = 0, m_fromVersion = Some ''v1'',
                              m_toVersion = Some ''v2'', m_direction = DirRequest \<rparr> \<rparr>"
    using transform_failure_policy[where
        transformExpr = "\<lparr> expression = None, cacheTtl = None, description = None \<rparr>"
        and now = 0 and lib = strict_lib and t = "new_JsonataTransformer None None"
        and dat = "JNum 7" and ctx = request_context] h0
    by (simp add: request_context_def)
  have d: "\<exists>r. fst (transform strict_lib 0 (JNum 7) (source_expr ''$.payload'') request_context
                 (new_JsonataTransformer None None)) = Inr r"
    using transform_failure_policy[where transformExpr = "source_expr ''$.payload''"
        and now = 0 and lib = strict_lib and t = "new_JsonataTransformer None None"
        and dat = "JNum 7" and ctx = request_context] h5
    by blast
  have h1: "expression (source_expr ''{ invalid syntax'') = Some ''{ invalid syntax''
      \<and> fst (ExpressionCache_get 0 (cacheKey ''{ invalid syntax'')
               (expressionCache (new_JsonataTransformer None None :: string JsonataTransformer)))
         = None
      \<and> jsonata strict_lib ''{ invalid syntax'' = Inl (JsError ''Syntax error'')"
    by (simp add: source_expr_def ExpressionCache_get_def new_JsonataTransformer_def
          new_ExpressionCache_def strict_lib_def)
  have h2: "expression (source_expr ''$error()'') = Some ''$error()''
      \<and> fst (compileExpression strict_lib 0 ''$error()''
               (num_or (cacheTtl (source_expr ''$error()'')) 3600 * 1000)
               (new_JsonataTransformer None None)) = Inr ''$error()''
      \<and> evaluate strict_lib ''$error()'' (JNum 7) = (1, Inl (NonError ''[object Object]''))"
    by (simp add: source_expr_def compileExpression_def ExpressionCache_get_def
          ExpressionCache_set_def new_JsonataTransformer_def new_ExpressionCache_def
          strict_lib_def cacheKey_def num_or_def)
  have a: "fst (transform strict_lib 0 (JNum 7) (source_expr ''{ invalid syntax'') request_context
          (new_JsonataTransformer None None))
   = Inr \<lparr> data = JNum 7, success = False,
           error = Some ''Failed to compile JSONata expression: Syntax error'',
           metrics = Some \<lparr> durationMs = 0, m_fromVersion = Some ''v1'',
                            m_toVersion = Some ''v2'', m_direction = DirRequest \<rparr> \<rparr>"
    using transform_failure_policy[where transformExpr = "source_expr ''{ invalid syntax''"
        and src = "''{ invalid syntax''" and now = 0 and lib = strict_lib
        and t = "new_JsonataTransformer None None" and ?e1.0 = "JsError ''Syntax error''"
        and dat = "JNum 7" and ctx = request_context] h1
    by (simp add: request_context_def)
  have b: "fst (transform strict_lib 0 (JNum 7) (source_expr ''$error()'') request_context
            (new_JsonataTransformer None None))
     = Inr \<lparr> data = JNum 7, success = False, error = Some ''[object Object]'',
             metrics = Some \<lparr> durationMs = 1, m_fromVersion = Some ''v1'',
                              m_toVersion = Some ''v2'', m_direction = DirRequest \<rparr> \<rparr>"
    using transform_failure_policy[where transformExpr = "source_expr ''$error()''"
        and src = "''$error()''" and now = 0 and lib = strict_lib
        and t = "new_JsonataTransformer None None" and compiled = "''$error()''"
        and d = 1 and ?e2.0 = "NonError ''[object Object]''"
        and dat = "JNum 7" and ctx = request_context] h2
    by (simp add: request_context_def)
  show ?thesis using a b c d by simp
qed

text \<open>
  Claim C5, as stated, fails. The error text of a failure is whatever text the thrown
  value has: for a thrown plain object it is \<open>[object Object]\<close>, which names no cause, and
  for an \<open>Error\<close> with the empty message it is the empty string. When the evaluation throws
  a value that \<open>String\<close> cannot convert, the \<open>catch\<close> block itself throws and \<open>transform\<close>
  returns no outcome.
\<close>

theorem transform_failure_text_counterexample:
  "fst (transform object_lib 0 (JNum 7) (source_expr ''$'') request_context
          (new_JsonataTransformer None None))
   = Inr \<lparr> data = JNum 7, success = False, error = Some ''[object Object]'',
           metrics = Some \<lparr> durationMs = 1, m_fromVersion = Some ''v1'',
                            m_toVersion = Some ''v2'', m_direction = DirRequest \<rparr> \<rparr>
   \<and> fst (transform empty_message_lib 0 (JNum 7) (source_expr ''$'') request_context
            (new_JsonataTransformer None None))
     = Inr \<lparr> data = JNum 7, success = False, error = Some [],
             metrics = Some \<lparr> durationMs = 1, m_fromVersion = Some ''v1'',
                              m_toVersion = Some ''v2'', m_direction = DirRequest \<rparr> \<rparr>
   \<and> fst (transform unprintable_lib 0 (JNum 7) (source_expr ''$'') request_context
            (new_JsonataTransformer None None))
     = Inl (JsError ''Cannot convert object to primitive value'')"
proof -
  have a: "fst (transform object_lib 0 (JNum 7) (source_expr ''$'') request_context
          (new_JsonataTransformer None None))
   = Inr \<lparr> data = JNum 7, success = False, error = Some ''[object Object]'',
           metrics = Some \<lparr> durationMs = 1, m_fromVersion = Some ''v1'',
                            m_toVersion = Some ''v2'', m_direction = DirRequest \<rparr> \<rparr>"
    by (simp add: transform_def transform_catch_def object_lib_def source_expr_def
          request_context_def new_JsonataTransformer_def new_ExpressionCache_def num_or_def
          compileExpression_def cacheKey_def ExpressionCache_get_def ExpressionCache_set_def
          executeWithTimeout_def setTimeout_def clearTimeout_def)
  have b: "fst (transform empty_message_lib 0 (JNum 7) (source_expr ''$'') request_context
            (new_JsonataTransformer None None))
     = Inr \<lparr> data = JNum 7, success = False, error = Some [],
             metrics = Some \<lparr> durationMs = 1, m_fromVersion = Some ''v1'',
                              m_toVersion = Some ''v2'', m_direction = DirRequest \<rparr> \<rparr>"
    by (simp add: transform_def transform_catch_def empty_message_lib_def source_expr_def
          request_context_def new_JsonataTransformer_def new_ExpressionCache_def num_or_def
          compileExpression_def cacheKey_def ExpressionCache_get_def ExpressionCache_set_def
          executeWithTimeout_def setTimeout_def clearTimeout_def)
  have c: "fst (transform unprintable_lib 0 (JNum 7) (source_expr ''$'') request_context
            (new_JsonataTransformer None None))
     = Inl (JsError ''Cannot convert object to primitive value'')"
    by (simp add: transform_def transform_catch_def unprintable_lib_def source_expr_def
          request_context_def new_JsonataTransformer_def new_ExpressionCache_def num_or_def
          compileExpression_def cacheKey_def ExpressionCache_get_def ExpressionCache_set_def
          executeWithTimeout_def setTimeout_def clearTimeout_def)
  show ?thesis using a b c by simp
qed

section \<open>Properties of the configuration loader\<close>

lemma parseInt10_3600: "parseInt10 ''3600'' = Some 3600"
  by (simp add: parseInt10_def is_ws_def is_digit_def digit_val_def)

lemma validateEntries_iff: "(validateEntries ts = Inr ()) = (\<not> list_ex entry_incomplete ts)"
proof (induction ts)
  case Nil
  then show ?case by simp
next
  case (Cons p ts)
  obtain v tr where p: "p = (v, tr)" by (cases p)
  have h: "validateEntries (p # ts) = Inr () \<longleftrightarrow> \<not> entry_incomplete p \<and> validateEntries ts = Inr ()"
    unfolding p
    by (cases "request tr"; cases "response tr")
       (auto simp: entry_incomplete_def leg_missing_def)
  show ?case unfolding h using Cons by simp
qed

lemma validateConfig_iff: "(validateConfig (Some cfg) = Inr ()) = (\<not> rejected_doc cfg)"
  by (simp add: validateConfig_def rejected_doc_def validateEntries_iff split: option.splits)

lemma validate_default: "validateConfig (Some getDefaultConfig) = Inr ()"
  by (simp add: validateConfig_def getDefaultConfig_def str_truthy_def v1_request_source_def
        v1_response_source_def)

lemma loadFromKV_valid: "loadFromKV parse l = Inr (Some cfg) \<Longrightarrow> validateConfig (Some cfg) = Inr ()"
  by (auto simp: loadFromKV_def loadFromKV_try_def split: sum.splits if_splits)

lemma loadFromKV_read_fails:
  "TRANSFORMATIONS (cl_env l) ''config:main'' = Inl e \<Longrightarrow> loadFromKV parse l = Inr None"
  by (simp add: loadFromKV_def loadFromKV_try_def)

lemma loadConfig_Inr: "\<exists>c. fst (loadConfig parse now l) = Inr c"
  by (simp add: loadConfig_def split: sum.splits option.splits)

lemma loadConfig_cache:
  "loadConfig parse now l = (Inr c, l') \<Longrightarrow> \<exists>cc. cl_cache l' = Some cc \<and> config cc = c \<and> cl_env l' = cl_env l"
  by (auto simp: loadConfig_def cacheConfig_def split: sum.splits option.splits if_splits)

lemma loadConfig_valid:
  assumes "loader_ok l" and "loadConfig parse now l = (Inr c, l')"
  shows "validateConfig (Some c) = Inr () \<and> loader_ok l'"
proof -
  have v: "validateConfig (Some c) = Inr ()"
    using assms loadFromKV_valid[of parse l] validate_default
    by (auto simp: loadConfig_def loader_ok_def split: sum.splits option.splits if_splits)
  obtain cc where "cl_cache l' = Some cc" "config cc = c"
    using loadConfig_cache[OF assms(2)] by blast
  then show ?thesis using v by (simp add: loader_ok_def)
qed

lemma loadConfig_default:
  assumes "TRANSFORMATIONS (cl_env l) ''config:main'' = Inl e"
    and "cl_cache l = None \<or> config (the (cl_cache l)) = getDefaultConfig"
  shows "fst (loadConfig parse now l) = Inr getDefaultConfig"
  using assms loadFromKV_read_fails[OF assms(1), of parse]
  by (auto simp: loadConfig_def split: option.splits)

lemma supported_default:
  assumes "TRANSFORMATIONS (cl_env l) ''config:main'' = Inl e"
    and "cl_cache l = None \<or> config (the (cl_cache l)) = getDefaultConfig"
  shows "fst (isSupportedVersion parse now ''v1'' l) = Inr True
         \<and> fst (isSupportedVersion parse now ''v2'' l) = Inr True"
proof -
  obtain l' where "loadConfig parse now l = (Inr getDefaultConfig, l')"
    using loadConfig_default[OF assms, of parse now] by (cases "loadConfig parse now l") simp
  then show ?thesis
    by (simp add: isSupportedVersion_def getDefaultConfig_def)
qed

text \<open>
  Every operation of the loader keeps \<open>loader_ok\<close>: a fresh loader and a cleared one have
  an empty slot, \<open>loadConfig\<close> fills the slot with a validated document or the default, and
  a lookup replaces a source only by a non-empty text.
\<close>


lemma entries_Map_set:
  "\<not> list_ex entry_incomplete ts \<Longrightarrow> \<not> entry_incomplete (v, tr)
   \<Longrightarrow> \<not> list_ex entry_incomplete (Map_set v tr ts)"
  by (induction ts) auto

lemma entries_lookup:
  "\<not> list_ex entry_incomplete ts \<Longrightarrow> map_of ts v = Some tr \<Longrightarrow> \<not> entry_incomplete (v, tr)"
  by (induction ts) (auto simp: entry_incomplete_def split: if_splits)

lemma resolve_leg_complete:
  "resolve_leg l leg = Inr leg' \<Longrightarrow> \<not> leg_missing (Some leg) \<Longrightarrow> \<not> leg_missing (Some leg')"
  by (auto simp: resolve_leg_def leg_missing_def str_truthy_def
           split: option.splits if_splits)

lemma assign_ok:
  assumes "loader_ok l" and "\<not> entry_incomplete (v, tr)"
  shows "loader_ok (assign_transformation v tr l)"
proof (cases "cl_cache l")
  case None
  then show ?thesis by (simp add: loader_ok_def assign_transformation_def)
next
  case (Some c)
  then have "\<not> rejected_doc (config c)"
    using assms(1) by (simp add: loader_ok_def validateConfig_iff)
  then have "\<not> rejected_doc ((config c)\<lparr> transformations :=
                 map_option (Map_set v tr) (transformations (config c)) \<rparr>)"
    using assms(2) by (auto simp: rejected_doc_def entries_Map_set split: option.splits)
  then show ?thesis
    using Some by (simp add: loader_ok_def assign_transformation_def validateConfig_iff)
qed

lemma lookup_keeps_loader_ok:
  assumes "loader_ok l"
  shows "loader_ok (snd (getVersionTransformation parse now v l))"
proof -
  obtain c where c: "fst (loadConfig parse now l) = Inr c" using loadConfig_Inr by blast
  obtain l1 where l1: "loadConfig parse now l = (Inr c, l1)"
    using c by (cases "loadConfig parse now l") simp
  have ok1: "loader_ok l1" and v: "validateConfig (Some c) = Inr ()"
    using loadConfig_valid[OF assms l1] by simp_all
  have nr: "\<not> rejected_doc c" using v by (simp add: validateConfig_iff)
  show ?thesis
  proof (cases "transformations c")
    case None
    then show ?thesis using l1 ok1 by (simp add: getVersionTransformation_def)
  next
    case (Some ts)
    have ents: "\<not> list_ex entry_incomplete ts" using nr Some by (simp add: rejected_doc_def)
    show ?thesis
    proof (cases "map_of ts v")
      case None
      then show ?thesis using l1 ok1 Some by (simp add: getVersionTransformation_def)
    next
      case tr: (Some tr)
      have comp: "\<not> entry_incomplete (v, tr)" by (rule entries_lookup[OF ents tr])
      then obtain rq rs where rq: "request tr = Some rq" and rs: "response tr = Some rs"
        by (auto simp: entry_incomplete_def leg_missing_def split: option.splits)
      have mq: "\<not> leg_missing (Some rq)" and ms: "\<not> leg_missing (Some rs)"
        using comp rq rs by (simp_all add: entry_incomplete_def)
      show ?thesis
      proof (cases "resolve_leg l1 rq")
        case (Inl e)
        then show ?thesis using l1 ok1 Some tr rq
          by (simp add: getVersionTransformation_def)
      next
        case (Inr rq')
        let ?t1 = "tr\<lparr> request := Some rq' \<rparr>"
        have c1: "\<not> entry_incomplete (v, ?t1)"
          using comp resolve_leg_complete[OF Inr mq] by (simp add: entry_incomplete_def)
        have ok2: "loader_ok (assign_transformation v ?t1 l1)" by (rule assign_ok[OF ok1 c1])
        show ?thesis
        proof (cases "resolve_leg (assign_transformation v ?t1 l1) rs")
          case (Inl e)
          then show ?thesis using l1 Some tr rq rs \<open>resolve_leg l1 rq = Inr rq'\<close> ok2
            by (simp add: getVersionTransformation_def Let_def)
        next
          case rs': (Inr rs')
          let ?t2 = "?t1\<lparr> response := Some rs' \<rparr>"
          have c2: "\<not> entry_incomplete (v, ?t2)"
            using c1 resolve_leg_complete[OF rs' ms] by (simp add: entry_incomplete_def)
          have "loader_ok (assign_transformation v ?t2 (assign_transformation v ?t1 l1))"
            by (rule assign_ok[OF ok2 c2])
          then show ?thesis using l1 Some tr rq rs \<open>resolve_leg l1 rq = Inr rq'\<close> rs'
            by (simp add: getVersionTransformation_def Let_def)
        qed
      qed
    qed
  qed
qed

lemma loader_ok_new: "loader_ok (createConfigLoader env)"
  by (simp add: loader_ok_def createConfigLoader_def)

lemma loader_ok_clear: "loader_ok (clearCache l)"
  by (simp add: loader_ok_def clearCache_def)

lemma loadFromKV_falls_back:
  assumes "falls_back parse l"
  shows "loadFromKV parse l = Inr None"
proof (cases "TRANSFORMATIONS (cl_env l) ''config:main''")
  case (Inl e)
  then show ?thesis by (rule loadFromKV_read_fails)
next
  case (Inr configJson)
  show ?thesis
  proof (cases configJson)
    case None
    then show ?thesis using Inr by (simp add: loadFromKV_def loadFromKV_try_def str_truthy_def)
  next
    case (Some stored)
    show ?thesis
    proof (cases "stored = []")
      case True
      then show ?thesis using Inr Some
        by (simp add: loadFromKV_def loadFromKV_try_def str_truthy_def)
    next
      case False
      show ?thesis
      proof (cases "parse stored")
        case (Inl e)
        then show ?thesis using Inr Some False
          by (simp add: loadFromKV_def loadFromKV_try_def str_truthy_def)
      next
        case r: (Inr doc)
        show ?thesis
        proof (cases doc)
          case None
          then show ?thesis using Inr Some False r
            by (simp add: loadFromKV_def loadFromKV_try_def str_truthy_def validateConfig_def)
        next
          case d: (Some cfg)
          have "rejected_doc cfg"
            using assms Inr Some False r d by (simp add: falls_back_def)
          then have "validateConfig (Some cfg) \<noteq> Inr ()" by (simp add: validateConfig_iff)
          then obtain e where "validateConfig (Some cfg) = Inl e"
            by (cases "validateConfig (Some cfg)") auto
          then show ?thesis using Inr Some False r d
            by (simp add: loadFromKV_def loadFromKV_try_def str_truthy_def)
        qed
      qed
    qed
  qed
qed

lemma loadFromKV_stored:
  assumes "\<not> falls_back parse l"
  shows "\<exists>stored cfg. TRANSFORMATIONS (cl_env l) ''config:main'' = Inr (Some stored)
           \<and> parse stored = Inr (Some cfg) \<and> loadFromKV parse l = Inr (Some cfg)"
proof -
  obtain stored where s: "TRANSFORMATIONS (cl_env l) ''config:main'' = Inr (Some stored)"
    using assms by (auto simp: falls_back_def split: sum.splits option.splits)
  have ne: "stored \<noteq> []" using assms s by (simp add: falls_back_def)
  obtain cfg where c: "parse stored = Inr (Some cfg)"
    using assms s ne by (auto simp: falls_back_def split: sum.splits option.splits)
  have "\<not> rejected_doc cfg" using assms s ne c by (simp add: falls_back_def)
  then have "validateConfig (Some cfg) = Inr ()" by (simp add: validateConfig_iff)
  then have "loadFromKV parse l = Inr (Some cfg)"
    using s ne c by (simp add: loadFromKV_def loadFromKV_try_def str_truthy_def)
  then show ?thesis using s c by blast
qed

lemma loadConfig_empty_slot:
  assumes "cl_cache l = None"
  shows "if falls_back parse l then fst (loadConfig parse now l) = Inr getDefaultConfig
         else \<exists>stored cfg. TRANSFORMATIONS (cl_env l) ''config:main'' = Inr (Some stored)
                \<and> parse stored = Inr (Some cfg) \<and> fst (loadConfig parse now l) = Inr cfg"
proof (cases "falls_back parse l")
  case True
  then show ?thesis
    using assms loadFromKV_falls_back[OF True] by (simp add: loadConfig_def)
next
  case False
  obtain stored cfg where "TRANSFORMATIONS (cl_env l) ''config:main'' = Inr (Some stored)"
    "parse stored = Inr (Some cfg)" "loadFromKV parse l = Inr (Some cfg)"
    using loadFromKV_stored[OF False] by blast
  then show ?thesis using assms False by (auto simp: loadConfig_def)
qed

lemma falls_back_env: "cl_env l' = cl_env l \<Longrightarrow> falls_back parse l' = falls_back parse l"
  by (simp add: falls_back_def)

lemma loadConfig_fallback:
  assumes "falls_back parse l"
    and "cl_cache l = None \<or> config (the (cl_cache l)) = getDefaultConfig"
  shows "fst (loadConfig parse now l) = Inr getDefaultConfig"
  using assms loadFromKV_falls_back[OF assms(1)]
  by (auto simp: loadConfig_def split: option.splits)

lemma supported_fallback:
  assumes "falls_back parse l"
    and "cl_cache l = None \<or> config (the (cl_cache l)) = getDefaultConfig"
  shows "fst (isSupportedVersion parse now ''v1'' l) = Inr True
         \<and> fst (isSupportedVersion parse now ''v2'' l) = Inr True"
proof -
  obtain l' where "loadConfig parse now l = (Inr getDefaultConfig, l')"
    using loadConfig_fallback[OF assms, of now] by (cases "loadConfig parse now l") simp
  then show ?thesis
    by (simp add: isSupportedVersion_def getDefaultConfig_def)
qed

lemma default_not_invalid: "\<not> spec_invalid getDefaultConfig"
  by (simp add: spec_invalid_def getDefaultConfig_def entry_incomplete_def leg_missing_def
        str_truthy_def v1_request_source_def v1_response_source_def)

text \<open>
  Claim C6, as amended. Whatever the store does, \<open>loadConfig\<close> returns a configuration and
  throws nothing. From a loader whose cache slot is empty or holds a document that passed
  \<open>validateConfig\<close>, the configuration returned is not a \<open>rejected_doc\<close> (its \<open>version\<close> and
  \<open>defaultVersion\<close> are non-empty, its \<open>transformations\<close> map is present, and every entry
  of the map has both legs with non-empty source; the map may be empty), and the slot keeps
  that property. When the read of the store fails and nothing is cached, the configuration
  is the built-in default, and \<open>isSupportedVersion\<close> then holds for \<open>v1\<close> and for \<open>v2\<close>.
  With nothing cached, the configuration is the built-in default on every store behaviour
  of \<open>falls_back\<close> (read failure, missing key or empty text, malformed JSON, a \<open>null\<close>
  document, a document the code turns away), with \<open>v1\<close> and \<open>v2\<close> supported afterwards,
  and otherwise it is the stored document. The built-in default is valid in the
  specification's words.
\<close>

theorem loadConfig_never_throws:
  "\<exists>c. fst (loadConfig parse now l) = Inr c
      \<and> (loader_ok l \<longrightarrow>
           \<not> rejected_doc c \<and> loader_ok (snd (loadConfig parse now l)))
      \<and> ((\<exists>e. TRANSFORMATIONS (cl_env l) ''config:main'' = Inl e) \<and> cl_cache l = None \<longrightarrow>
           c = getDefaultConfig
           \<and> fst (isSupportedVersion parse later ''v1'' (snd (loadConfig parse now l))) = Inr True
           \<and> fst (isSupportedVersion parse later ''v2'' (snd (loadConfig parse now l))) = Inr True)
      \<and> (cl_cache l = None \<longrightarrow>
           (if falls_back parse l
            then c = getDefaultConfig
              \<and> fst (isSupportedVersion parse later ''v1'' (snd (loadConfig parse now l)))
                  = Inr True
              \<and> fst (isSupportedVersion parse later ''v2'' (snd (loadConfig parse now l)))
                  = Inr True
            else \<exists>stored. TRANSFORMATIONS (cl_env l) ''config:main'' = Inr (Some stored)
                   \<and> parse stored = Inr (Some c)))
      \<and> \<not> spec_invalid getDefaultConfig"
proof -
  obtain c where c: "fst (loadConfig parse now l) = Inr c"
    using loadConfig_Inr by blast
  obtain l' where l': "loadConfig parse now l = (Inr c, l')"
    using c by (cases "loadConfig parse now l") simp
  have a: "\<not> rejected_doc c \<and> loader_ok l'" if "loader_ok l"
    using loadConfig_valid[OF that l'] by (simp add: validateConfig_iff)
  have b: "c = getDefaultConfig
           \<and> fst (isSupportedVersion parse later ''v1'' l') = Inr True
           \<and> fst (isSupportedVersion parse later ''v2'' l') = Inr True"
    if h: "(\<exists>e. TRANSFORMATIONS (cl_env l) ''config:main'' = Inl e) \<and> cl_cache l = None"
  proof -
    obtain e where e: "TRANSFORMATIONS (cl_env l) ''config:main'' = Inl e" using h by blast
    have d: "c = getDefaultConfig"
      using loadConfig_default[OF e, of parse now] h c by simp
    obtain cc where cc: "cl_cache l' = Some cc" "config cc = c" "cl_env l' = cl_env l"
      using loadConfig_cache[OF l'] by blast
    have e': "TRANSFORMATIONS (cl_env l') ''config:main'' = Inl e" using e cc by simp
    have "cl_cache l' = None \<or> config (the (cl_cache l')) = getDefaultConfig"
      using cc d by simp
    from supported_default[OF e' this] d show ?thesis by simp
  qed
  have d: "if falls_back parse l
           then c = getDefaultConfig
             \<and> fst (isSupportedVersion parse later ''v1'' l') = Inr True
             \<and> fst (isSupportedVersion parse later ''v2'' l') = Inr True
           else \<exists>stored. TRANSFORMATIONS (cl_env l) ''config:main'' = Inr (Some stored)
                  \<and> parse stored = Inr (Some c)"
    if h: "cl_cache l = None"
  proof (cases "falls_back parse l")
    case True
    have d: "c = getDefaultConfig"
      using loadConfig_empty_slot[OF h, of parse now] True c by simp
    obtain cc where cc: "cl_cache l' = Some cc" "config cc = c" "cl_env l' = cl_env l"
      using loadConfig_cache[OF l'] by blast
    have f': "falls_back parse l'" using True falls_back_env[OF cc(3)] by simp
    have "cl_cache l' = None \<or> config (the (cl_cache l')) = getDefaultConfig"
      using cc d by simp
    from supported_fallback[OF f' this] d True show ?thesis by simp
  next
    case False
    then show ?thesis
      using loadConfig_empty_slot[OF h, of parse now] c by auto
  qed
  show ?thesis using c l' a b d default_not_invalid by auto
qed

text \<open>
  A fresh loader on four stores: one whose every read fails, one without the key, one
  whose text is not JSON, and one whose document lacks \<open>defaultVersion\<close>. Each time the
  result is the built-in default.
\<close>

theorem loadConfig_store_read_fails:
  "fst (loadConfig (parse_table []) 0 (createConfigLoader failing_env)) = Inr getDefaultConfig
   \<and> \<not> rejected_doc getDefaultConfig
   \<and> fst (isSupportedVersion (parse_table []) 5
            (''v1'') (snd (loadConfig (parse_table []) 0 (createConfigLoader failing_env)))) = Inr True
   \<and> fst (isSupportedVersion (parse_table []) 5
            (''v2'') (snd (loadConfig (parse_table []) 0 (createConfigLoader failing_env)))) = Inr True
   \<and> fst (loadConfig (parse_table []) 0 (createConfigLoader (store_env []))) = Inr getDefaultConfig
   \<and> fst (loadConfig (parse_table []) 0
            (createConfigLoader (store_env [(''config:main'', ''{ not json'')])))
     = Inr getDefaultConfig
   \<and> fst (loadConfig (parse_table [(no_default_text, Some no_default_doc)]) 0
            (createConfigLoader (store_env [(''config:main'', no_default_text)])))
     = Inr getDefaultConfig"
proof -
  have ok: "loader_ok (createConfigLoader env)" for env
    by (simp add: loader_ok_def createConfigLoader_def)
  have em: "cl_cache (createConfigLoader env) = None" for env
    by (simp add: createConfigLoader_def)
  have f: "(\<exists>e. TRANSFORMATIONS (cl_env (createConfigLoader failing_env)) ''config:main'' = Inl e)
           \<and> cl_cache (createConfigLoader failing_env) = None"
    by (simp add: createConfigLoader_def failing_env_def)
  have f2: "falls_back (parse_table []) (createConfigLoader (store_env []))"
    by (simp add: falls_back_def createConfigLoader_def store_env_def)
  have f3: "falls_back (parse_table [])
              (createConfigLoader (store_env [(''config:main'', ''{ not json'')]))"
    by (simp add: falls_back_def createConfigLoader_def store_env_def parse_table_def)
  have f4: "falls_back (parse_table [(no_default_text, Some no_default_doc)])
              (createConfigLoader (store_env [(''config:main'', no_default_text)]))"
    by (simp add: falls_back_def createConfigLoader_def store_env_def parse_table_def
          no_default_text_def rejected_doc_def no_default_doc_def str_truthy_def)
  have a: "fst (loadConfig (parse_table []) 0 (createConfigLoader failing_env))
             = Inr getDefaultConfig
   \<and> \<not> rejected_doc getDefaultConfig
   \<and> fst (isSupportedVersion (parse_table []) 5
            (''v1'') (snd (loadConfig (parse_table []) 0 (createConfigLoader failing_env)))) = Inr True
   \<and> fst (isSupportedVersion (parse_table []) 5
            (''v2'') (snd (loadConfig (parse_table []) 0 (createConfigLoader failing_env)))) = Inr True"
    using loadConfig_never_throws[of "parse_table []" 0 "createConfigLoader failing_env" 5]
      ok[of failing_env] f
    by auto
  have b: "fst (loadConfig (parse_table []) 0 (createConfigLoader (store_env [])))
             = Inr getDefaultConfig"
    using loadConfig_never_throws[of "parse_table []" 0 "createConfigLoader (store_env [])" 5]
      em[of "store_env []"] f2
    by auto
  have c: "fst (loadConfig (parse_table []) 0
            (createConfigLoader (store_env [(''config:main'', ''{ not json'')])))
     = Inr getDefaultConfig"
    using loadConfig_never_throws[of "parse_table []" 0
            "createConfigLoader (store_env [(''config:main'', ''{ not json'')])" 5]
      em[of "store_env [(''config:main'', ''{ not json'')]"] f3
    by auto
  have d: "fst (loadConfig (parse_table [(no_default_text, Some no_default_doc)]) 0
            (createConfigLoader (store_env [(''config:main'', no_default_text)])))
     = Inr getDefaultConfig"
    using loadConfig_never_throws[of "parse_table [(no_default_text, Some no_default_doc)]" 0
            "createConfigLoader (store_env [(''config:main'', no_default_text)])" 5]
      em[of "store_env [(''config:main'', no_default_text)]"] f4
    by auto
  show ?thesis using a b c d by simp
qed

text \<open>
  Claim C6, as stated, fails: \<open>loadConfig\<close> does not always return a valid configuration.
  A stored document with an empty \<open>transformations\<close> map, invalid in the specification's
  words, is returned as it is, and under it not even the document's own default version
  \<open>v2\<close> is supported.
\<close>

theorem loadConfig_returns_invalid_document:
  "fst (loadConfig (parse_table [(empty_map_text, Some empty_map_doc)]) 0
          (createConfigLoader (store_env [(''config:main'', empty_map_text)])))
   = Inr empty_map_doc
   \<and> spec_invalid empty_map_doc
   \<and> defaultVersion empty_map_doc = Some ''v2''
   \<and> fst (isSupportedVersion (parse_table [(empty_map_text, Some empty_map_doc)]) 0 ''v2''
            (snd (loadConfig (parse_table [(empty_map_text, Some empty_map_doc)]) 0
                    (createConfigLoader (store_env [(''config:main'', empty_map_text)])))))
     = Inr False"
proof -
  have v: "validateConfig (Some empty_map_doc) = Inr ()"
    by (simp add: validateConfig_def empty_map_doc_def str_truthy_def)
  have k: "loadFromKV (parse_table [(empty_map_text, Some empty_map_doc)])
             (createConfigLoader (store_env [(''config:main'', empty_map_text)]))
           = Inr (Some empty_map_doc)"
    using v
    by (simp add: loadFromKV_def loadFromKV_try_def createConfigLoader_def store_env_def
          parse_table_def str_truthy_def empty_map_text_def)
  have l: "loadConfig (parse_table [(empty_map_text, Some empty_map_doc)]) 0
             (createConfigLoader (store_env [(''config:main'', empty_map_text)]))
           = (Inr empty_map_doc,
              \<lparr> cl_cache = Some \<lparr> config = empty_map_doc, cachedAt = 0, ttl = Some 3600000 \<rparr>,
                cl_env = store_env [(''config:main'', empty_map_text)] \<rparr>)"
    using k
    by (simp add: loadConfig_def createConfigLoader_def cacheConfig_def store_env_def
          str_or_def parseInt10_3600)
  have a: "spec_invalid empty_map_doc" by (simp add: spec_invalid_def empty_map_doc_def)
  have d: "defaultVersion empty_map_doc = Some ''v2''" by (simp add: empty_map_doc_def)
  have h: "loadConfig (parse_table [(empty_map_text, Some empty_map_doc)]) 0
             \<lparr> cl_cache = Some \<lparr> config = empty_map_doc, cachedAt = 0, ttl = Some 3600000 \<rparr>,
               cl_env = store_env [(''config:main'', empty_map_text)] \<rparr>
           = (Inr empty_map_doc,
              \<lparr> cl_cache = Some \<lparr> config = empty_map_doc, cachedAt = 0, ttl = Some 3600000 \<rparr>,
                cl_env = store_env [(''config:main'', empty_map_text)] \<rparr>)"
    by (simp add: loadConfig_def isCacheValid_def)
  have s: "fst (isSupportedVersion (parse_table [(empty_map_text, Some empty_map_doc)]) 0 ''v2''
             \<lparr> cl_cache = Some \<lparr> config = empty_map_doc, cachedAt = 0, ttl = Some 3600000 \<rparr>,
               cl_env = store_env [(''config:main'', empty_map_text)] \<rparr>) = Inr False"
    unfolding isSupportedVersion_def h
    by (simp add: empty_map_doc_def object_prototype_keys_def)
  show ?thesis using a d s unfolding l by simp
qed

lemma validation_cases:
  assumes "cl_cache l = None" and "TRANSFORMATIONS (cl_env l) ''config:main'' = Inr (Some stored)"
    and "stored \<noteq> []" and "parse stored = Inr (Some cfg)"
  shows "loadConfig parse now l =
           (Inr (if rejected_doc cfg then getDefaultConfig else cfg),
            cacheConfig now (if rejected_doc cfg then getDefaultConfig else cfg) l)"
proof (cases "rejected_doc cfg")
  case True
  then have "validateConfig (Some cfg) \<noteq> Inr ()" by (simp add: validateConfig_iff)
  then obtain e where "validateConfig (Some cfg) = Inl e"
    by (cases "validateConfig (Some cfg)") auto
  then have "loadFromKV parse l = Inr None"
    using assms by (simp add: loadFromKV_def loadFromKV_try_def str_truthy_def)
  then show ?thesis using assms(1) True by (simp add: loadConfig_def)
next
  case False
  then have "validateConfig (Some cfg) = Inr ()" by (simp add: validateConfig_iff)
  then have "loadFromKV parse l = Inr (Some cfg)"
    using assms by (simp add: loadFromKV_def loadFromKV_try_def str_truthy_def)
  then show ?thesis using assms(1) False by (simp add: loadConfig_def)
qed

text \<open>
  Claim C4, as amended. \<open>validateConfig\<close> accepts a document exactly when it is not a
  \<open>rejected_doc\<close>: its \<open>version\<close> and \<open>defaultVersion\<close> are present and non-empty, its
  \<open>transformations\<close> map is present, and every entry has both legs with non-empty source.
  A loader with an empty cache slot that reads the document from the store returns the
  whole built-in default when the document is rejected, and the whole document otherwise,
  and caches what it returns.
\<close>

theorem validation_rejects_wholesale:
  "(validateConfig (Some cfg) = Inr () \<longleftrightarrow> \<not> rejected_doc cfg)
   \<and> (cl_cache l = None \<and> TRANSFORMATIONS (cl_env l) ''config:main'' = Inr (Some stored)
        \<and> stored \<noteq> [] \<and> parse stored = Inr (Some cfg) \<longrightarrow>
        loadConfig parse now l =
          (Inr (if rejected_doc cfg then getDefaultConfig else cfg),
           cacheConfig now (if rejected_doc cfg then getDefaultConfig else cfg) l))"
  using validateConfig_iff[of cfg] validation_cases[of l stored parse cfg now] by blast

text \<open>A stored document without \<open>defaultVersion\<close> is rejected and the default is returned.\<close>

theorem validation_rejects_wholesale_witness:
  "validateConfig (Some no_default_doc) \<noteq> Inr ()
   \<and> loadConfig (parse_table [(no_default_text, Some no_default_doc)]) 0
        (createConfigLoader (store_env [(''config:main'', no_default_text)]))
      = (Inr getDefaultConfig,
         cacheConfig 0 getDefaultConfig
           (createConfigLoader (store_env [(''config:main'', no_default_text)])))"
proof -
  have r: "rejected_doc no_default_doc"
    by (simp add: rejected_doc_def no_default_doc_def str_truthy_def)
  have h: "cl_cache (createConfigLoader (store_env [(''config:main'', no_default_text)])) = None
        \<and> TRANSFORMATIONS (cl_env (createConfigLoader (store_env [(''config:main'', no_default_text)])))
            ''config:main'' = Inr (Some no_default_text)
        \<and> no_default_text \<noteq> []
        \<and> parse_table [(no_default_text, Some no_default_doc)] no_default_text
            = Inr (Some no_default_doc)"
    by (simp add: createConfigLoader_def store_env_def parse_table_def no_default_text_def)
  show ?thesis
    using validation_rejects_wholesale[of no_default_doc
            "createConfigLoader (store_env [(''config:main'', no_default_text)])"
            no_default_text "parse_table [(no_default_text, Some no_default_doc)]" 0] r h
    by simp
qed

text \<open>
  Claim C4, as stated, fails: a stored document with an empty \<open>transformations\<close> map is
  invalid in the specification's words, yet \<open>validateConfig\<close> accepts it and \<open>loadConfig\<close>
  returns it instead of the default.
\<close>

theorem empty_transformations_accepted:
  "spec_invalid empty_map_doc
   \<and> validateConfig (Some empty_map_doc) = Inr ()
   \<and> fst (loadConfig (parse_table [(empty_map_text, Some empty_map_doc)]) 0
            (createConfigLoader (store_env [(''config:main'', empty_map_text)])))
      = Inr empty_map_doc
   \<and> empty_map_doc \<noteq> getDefaultConfig"
proof -
  have a: "spec_invalid empty_map_doc" by (simp add: spec_invalid_def empty_map_doc_def)
  have b: "validateConfig (Some empty_map_doc) = Inr ()"
    by (simp add: validateConfig_def empty_map_doc_def str_truthy_def)
  have c: "fst (loadConfig (parse_table [(empty_map_text, Some empty_map_doc)]) 0
            (createConfigLoader (store_env [(''config:main'', empty_map_text)])))
      = Inr empty_map_doc"
    using b
    by (simp add: loadConfig_def loadFromKV_def loadFromKV_try_def createConfigLoader_def
          store_env_def parse_table_def str_truthy_def empty_map_text_def)
  have d: "empty_map_doc \<noteq> getDefaultConfig"
    by (simp add: empty_map_doc_def getDefaultConfig_def)
  show ?thesis using a b c d by simp
qed

lemma Map_set_same: "map_of ps k = Some v \<Longrightarrow> Map_set k v ps = ps"
  by (induction ps) (auto split: if_splits)

lemma map_of_Map_set: "map_of (Map_set k v ps) k = Some v"
  by (induction ps) auto

lemma loadConfig_hit:
  "cl_cache l = Some cc \<Longrightarrow> isCacheValid now cc \<Longrightarrow> loadConfig parse now l = (Inr (config cc), l)"
  by (simp add: loadConfig_def)

lemma assign_noop:
  "cl_cache l = Some c \<Longrightarrow> transformations (config c) = Some ts \<Longrightarrow> map_of ts v = Some tr
   \<Longrightarrow> assign_transformation v tr l = l"
  by (simp add: assign_transformation_def Map_set_same)

lemma resolve_leg_plain:
  "expression leg = Some s \<Longrightarrow> take 3 s \<noteq> ''kv:'' \<Longrightarrow> resolve_leg l leg = Inr leg"
  by (simp add: resolve_leg_def)

text \<open>A lookup on a valid cached document whose legs are not references reads nothing.\<close>

lemma lookup_plain:
  assumes "cl_cache l = Some c" and "isCacheValid now c"
    and "transformations (config c) = Some ts" and "map_of ts v = Some tr"
    and "request tr = Some rq" and "expression rq = Some s1" and "take 3 s1 \<noteq> ''kv:''"
    and "response tr = Some rs" and "expression rs = Some s2" and "take 3 s2 \<noteq> ''kv:''"
  shows "getVersionTransformation parse now v l = (Inr (Some tr), l)"
proof -
  have t1: "tr\<lparr> request := Some rq \<rparr> = tr" using assms(5) by simp
  have t2: "tr\<lparr> response := Some rs \<rparr> = tr" using assms(8) by simp
  have a: "assign_transformation v tr l = l" by (rule assign_noop[OF assms(1,3,4)])
  show ?thesis
    using assms loadConfig_hit[OF assms(1,2), of parse]
      resolve_leg_plain[OF assms(6,7), of l] resolve_leg_plain[OF assms(9,10), of l]
    by (simp add: getVersionTransformation_def t1 t2 a)
qed

lemma Map_set_twice: "Map_set k v (Map_set k w ps) = Map_set k v ps"
  by (induction ps) auto

lemma expression_same: "expression leg = Some src \<Longrightarrow> leg\<lparr> expression := Some src \<rparr> = leg"
  by (cases leg) simp

lemma resolve_leg_eq:
  "expression leg = Some src
   \<Longrightarrow> resolve_leg l leg = Inr (leg\<lparr> expression := Some (resolved_source l src) \<rparr>)"
  by (auto simp: resolve_leg_def resolved_source_def expression_same split: option.splits)

lemma resolved_source_env:
  "cl_env l' = cl_env l \<Longrightarrow> resolved_source l' src = resolved_source l src"
  by (simp add: resolved_source_def loadExpression_def)

lemma lookup_resolves:
  assumes "cl_cache l = Some cc" and "isCacheValid now cc"
    and "transformations (config cc) = Some ts" and "map_of ts v = Some tr"
    and "request tr = Some rq" and "expression rq = Some src1"
    and "response tr = Some rs" and "expression rs = Some src2"
  shows "getVersionTransformation parse now v l =
           (Inr (Some (tr\<lparr> request := Some (rq\<lparr> expression := Some (resolved_source l src1) \<rparr>),
                            response := Some (rs\<lparr> expression := Some (resolved_source l src2) \<rparr>) \<rparr>)),
            l\<lparr> cl_cache := Some (cc\<lparr> config := (config cc)\<lparr> transformations :=
                   Some (Map_set v
                     (tr\<lparr> request := Some (rq\<lparr> expression := Some (resolved_source l src1) \<rparr>),
                          response := Some (rs\<lparr> expression := Some (resolved_source l src2) \<rparr>) \<rparr>)
                     ts) \<rparr> \<rparr>) \<rparr>)"
proof -
  let ?rq = "rq\<lparr> expression := Some (resolved_source l src1) \<rparr>"
  let ?rs = "rs\<lparr> expression := Some (resolved_source l src2) \<rparr>"
  let ?t1 = "tr\<lparr> request := Some ?rq \<rparr>"
  let ?t2 = "tr\<lparr> request := Some ?rq, response := Some ?rs \<rparr>"
  have r1: "resolve_leg l rq = Inr ?rq" by (rule resolve_leg_eq[OF assms(6)])
  have env: "cl_env (assign_transformation v ?t1 l) = cl_env l"
    by (simp add: assign_transformation_def)
  have r2: "resolve_leg (assign_transformation v ?t1 l) rs = Inr ?rs"
    using resolve_leg_eq[OF assms(8), of "assign_transformation v ?t1 l"]
    by (simp add: resolved_source_env[OF env])
  have a: "assign_transformation v ?t2 (assign_transformation v ?t1 l)
           = l\<lparr> cl_cache := Some (cc\<lparr> config := (config cc)\<lparr> transformations :=
                   Some (Map_set v ?t2 ts) \<rparr> \<rparr>) \<rparr>"
    using assms(1,3) by (simp add: assign_transformation_def Map_set_twice)
  show ?thesis
    using assms(3,4,5,7) loadConfig_hit[OF assms(1,2), of parse] r1 r2
    by (simp add: getVersionTransformation_def Let_def a)
qed

text \<open>
  Claim C9, as amended. On a valid cached document that has both legs for the version,
  \<open>getVersionTransformation\<close> returns the transformation with each leg's source replaced
  by what it resolves to, and writes the same transformation into the cached document.
  When neither resolved source is itself a reference, a later lookup while the slot is
  valid returns the same transformation and leaves the loader as it is, whatever the
  store then holds: a reference that was resolved is not fetched again.
\<close>

theorem reference_resolution_written_to_cache:
  assumes "cl_cache l = Some cc" and "isCacheValid now cc"
    and "transformations (config cc) = Some ts" and "map_of ts v = Some tr"
    and "request tr = Some rq" and "expression rq = Some src1"
    and "response tr = Some rs" and "expression rs = Some src2"
  shows "\<exists>l'. getVersionTransformation parse now v l =
             (Inr (Some (tr\<lparr> request := Some (rq\<lparr> expression := Some (resolved_source l src1) \<rparr>),
                              response := Some (rs\<lparr> expression := Some (resolved_source l src2) \<rparr>) \<rparr>)),
              l')
          \<and> map_option config (cl_cache l') =
              Some ((config cc)\<lparr> transformations :=
                 Some (Map_set v
                   (tr\<lparr> request := Some (rq\<lparr> expression := Some (resolved_source l src1) \<rparr>),
                        response := Some (rs\<lparr> expression := Some (resolved_source l src2) \<rparr>) \<rparr>)
                   ts) \<rparr>)
          \<and> (take 3 (resolved_source l src1) \<noteq> ''kv:'' \<and> take 3 (resolved_source l src2) \<noteq> ''kv:'' \<longrightarrow>
               (\<forall>env' later. isCacheValid later cc \<longrightarrow>
                  getVersionTransformation parse later v (l'\<lparr> cl_env := env' \<rparr>) =
                    (Inr (Some (tr\<lparr> request := Some (rq\<lparr> expression := Some (resolved_source l src1) \<rparr>),
                                     response := Some (rs\<lparr> expression := Some (resolved_source l src2) \<rparr>) \<rparr>)),
                     l'\<lparr> cl_env := env' \<rparr>)))"
proof -
  let ?rq = "rq\<lparr> expression := Some (resolved_source l src1) \<rparr>"
  let ?rs = "rs\<lparr> expression := Some (resolved_source l src2) \<rparr>"
  let ?tr = "tr\<lparr> request := Some ?rq, response := Some ?rs \<rparr>"
  let ?cc = "cc\<lparr> config := (config cc)\<lparr> transformations := Some (Map_set v ?tr ts) \<rparr> \<rparr>"
  let ?l = "l\<lparr> cl_cache := Some ?cc \<rparr>"
  have first: "getVersionTransformation parse now v l = (Inr (Some ?tr), ?l)"
    by (rule lookup_resolves[OF assms])
  have doc: "map_option config (cl_cache ?l) =
             Some ((config cc)\<lparr> transformations := Some (Map_set v ?tr ts) \<rparr>)"
    by simp
  have again: "getVersionTransformation parse later v (?l\<lparr> cl_env := env' \<rparr>) =
               (Inr (Some ?tr), ?l\<lparr> cl_env := env' \<rparr>)"
    if plain: "take 3 (resolved_source l src1) \<noteq> ''kv:'' \<and> take 3 (resolved_source l src2) \<noteq> ''kv:''"
      and valid: "isCacheValid later cc" for env' later
  proof (rule lookup_plain)
    show "cl_cache (?l\<lparr> cl_env := env' \<rparr>) = Some ?cc" by simp
    show "isCacheValid later ?cc" using valid by (cases "ttl cc") (simp_all add: isCacheValid_def)
    show "transformations (config ?cc) = Some (Map_set v ?tr ts)" by simp
    show "map_of (Map_set v ?tr ts) v = Some ?tr" by (rule map_of_Map_set)
    show "request ?tr = Some ?rq" by simp
    show "expression ?rq = Some (resolved_source l src1)" by simp
    show "take 3 (resolved_source l src1) \<noteq> ''kv:''" using plain by simp
    show "response ?tr = Some ?rs" by simp
    show "expression ?rs = Some (resolved_source l src2)" by simp
    show "take 3 (resolved_source l src2) \<noteq> ''kv:''" using plain by simp
  qed
  show ?thesis using first doc again by blast
qed

lemma ref_loaded_eq:
  "ref_loaded = \<lparr> cl_cache = Some ref_slot, cl_env = store_env ref_store \<rparr>"
proof -
  have v: "validateConfig (Some ref_doc) = Inr ()"
    by (simp add: validateConfig_def ref_doc_def ref_unresolved_def str_truthy_def
          source_expr_def)
  have "loadFromKV ref_parse (createConfigLoader (store_env ref_store)) = Inr (Some ref_doc)"
    using v
    by (simp add: loadFromKV_def loadFromKV_try_def createConfigLoader_def store_env_def
          ref_store_def ref_parse_def parse_table_def str_truthy_def ref_text_def)
  then show ?thesis
    by (simp add: ref_loaded_def loadConfig_def createConfigLoader_def cacheConfig_def
          store_env_def str_or_def parseInt10_3600 ref_slot_def)
qed

lemma ref_premises:
  shows "cl_cache ref_loaded = Some ref_slot"
    and "isCacheValid 1 ref_slot"
    and "transformations (config ref_slot) = Some [(''v1'', ref_unresolved)]"
    and "map_of [(''v1'', ref_unresolved)] ''v1'' = Some ref_unresolved"
    and "request ref_unresolved = Some (source_expr ''kv:transformations/v1-to-v2-request.jsonata'')"
    and "expression (source_expr ''kv:transformations/v1-to-v2-request.jsonata'')
           = Some ''kv:transformations/v1-to-v2-request.jsonata''"
    and "response ref_unresolved = Some (source_expr ''$.result'')"
    and "expression (source_expr ''$.result'') = Some ''$.result''"
  by (simp_all add: ref_loaded_eq ref_slot_def isCacheValid_def ref_doc_def ref_unresolved_def
        source_expr_def)

lemma ref_sources:
  shows "resolved_source ref_loaded ''kv:transformations/v1-to-v2-request.jsonata'' = ''$.payload''"
    and "resolved_source ref_loaded ''$.result'' = ''$.result''"
  by (simp_all add: resolved_source_def loadExpression_def ref_loaded_eq store_env_def
        ref_store_def)

lemma ref_resolved_eq:
  "ref_unresolved\<lparr> request := Some ((source_expr ''kv:transformations/v1-to-v2-request.jsonata'')
                                       \<lparr> expression := Some ''$.payload'' \<rparr>),
                    response := Some ((source_expr ''$.result'')
                                       \<lparr> expression := Some ''$.result'' \<rparr>) \<rparr> = ref_resolved"
  by (simp add: ref_resolved_def ref_unresolved_def source_expr_def)

lemma ref_slot_valid: "isCacheValid 2 ref_slot"
  by (simp add: isCacheValid_def ref_slot_def)

text \<open>The lookup of \<open>v1\<close> on \<open>ref_loaded\<close>, and a second lookup after the store changed.\<close>

theorem reference_resolution_witness:
  "\<exists>l'. getVersionTransformation ref_parse 1 ''v1'' ref_loaded = (Inr (Some ref_resolved), l')
       \<and> map_option config (cl_cache l') =
           Some (ref_doc\<lparr> transformations := Some [(''v1'', ref_resolved)] \<rparr>)
       \<and> getVersionTransformation ref_parse 2 ''v1'' (l'\<lparr> cl_env := store_env ref_store_changed \<rparr>)
           = (Inr (Some ref_resolved), l'\<lparr> cl_env := store_env ref_store_changed \<rparr>)"
proof -
  from reference_resolution_written_to_cache[OF ref_premises, of ref_parse]
  obtain l' where
    a: "getVersionTransformation ref_parse 1 ''v1'' ref_loaded = (Inr (Some ref_resolved), l')"
    and b: "map_option config (cl_cache l') =
            Some ((config ref_slot)\<lparr> transformations :=
                    Some (Map_set ''v1'' ref_resolved [(''v1'', ref_unresolved)]) \<rparr>)"
    and c: "take 3 ''$.payload'' \<noteq> ''kv:'' \<and> take 3 ''$.result'' \<noteq> ''kv:'' \<longrightarrow>
            (\<forall>env' later. isCacheValid later ref_slot \<longrightarrow>
              getVersionTransformation ref_parse later ''v1'' (l'\<lparr> cl_env := env' \<rparr>) =
                (Inr (Some ref_resolved), l'\<lparr> cl_env := env' \<rparr>))"
    unfolding ref_sources ref_resolved_eq by blast
  have b': "map_option config (cl_cache l') =
            Some (ref_doc\<lparr> transformations := Some [(''v1'', ref_resolved)] \<rparr>)"
    using b by (simp add: ref_slot_def)
  have p: "take 3 ''$.payload'' \<noteq> ''kv:'' \<and> take 3 ''$.result'' \<noteq> ''kv:''" by simp
  show ?thesis using a b' c p ref_slot_valid by blast
qed

lemma ref_first_lookup:
  "getVersionTransformation ref_parse 1 ''v1'' ref_loaded =
     (Inr (Some ref_resolved),
      ref_loaded\<lparr> cl_cache := Some (ref_slot\<lparr> config :=
         ref_doc\<lparr> transformations := Some [(''v1'', ref_resolved)] \<rparr> \<rparr>) \<rparr>)"
  using lookup_resolves[OF ref_premises, of ref_parse]
  unfolding ref_sources ref_resolved_eq by (simp add: ref_slot_def)

lemma ref_second_lookup:
  "getVersionTransformation ref_parse 2 ''v1''
     (ref_loaded\<lparr> cl_cache := Some (ref_slot\<lparr> config :=
         ref_doc\<lparr> transformations := Some [(''v1'', ref_resolved)] \<rparr> \<rparr>),
        cl_env := store_env ref_store_changed \<rparr>)
   = (Inr (Some ref_resolved),
      ref_loaded\<lparr> cl_cache := Some (ref_slot\<lparr> config :=
         ref_doc\<lparr> transformations := Some [(''v1'', ref_resolved)] \<rparr> \<rparr>),
        cl_env := store_env ref_store_changed \<rparr>)"
proof (rule lookup_plain)
  show "cl_cache (ref_loaded\<lparr> cl_cache := Some (ref_slot\<lparr> config :=
         ref_doc\<lparr> transformations := Some [(''v1'', ref_resolved)] \<rparr> \<rparr>),
        cl_env := store_env ref_store_changed \<rparr>)
        = Some (ref_slot\<lparr> config := ref_doc\<lparr> transformations := Some [(''v1'', ref_resolved)] \<rparr> \<rparr>)"
    by simp
  show "isCacheValid 2 (ref_slot\<lparr> config := ref_doc\<lparr> transformations := Some [(''v1'', ref_resolved)] \<rparr> \<rparr>)"
    by (simp add: isCacheValid_def ref_slot_def)
  show "transformations (config (ref_slot\<lparr> config :=
          ref_doc\<lparr> transformations := Some [(''v1'', ref_resolved)] \<rparr> \<rparr>))
        = Some [(''v1'', ref_resolved)]"
    by simp
  show "map_of [(''v1'', ref_resolved)] ''v1'' = Some ref_resolved" by simp
  show "request ref_resolved = Some (source_expr ''$.payload'')" by (simp add: ref_resolved_def)
  show "expression (source_expr ''$.payload'') = Some ''$.payload''" by (simp add: source_expr_def)
  show "take 3 ''$.payload'' \<noteq> ''kv:''" by simp
  show "response ref_resolved = Some (source_expr ''$.result'')" by (simp add: ref_resolved_def)
  show "expression (source_expr ''$.result'') = Some ''$.result''" by (simp add: source_expr_def)
  show "take 3 ''$.result'' \<noteq> ''kv:''" by simp
qed

text \<open>
  Claim C9, as stated, fails: after the lookup the cached document is no longer the
  document that was loaded, and a second lookup, made after the referenced text in the
  store was replaced by \<open>$.other\<close>, still returns the text fetched the first time.
\<close>

theorem reference_resolution_mutates_cache:
  "map_option config (cl_cache ref_loaded) = Some ref_doc
   \<and> map_option config (cl_cache (snd (getVersionTransformation ref_parse 1 ''v1'' ref_loaded)))
       \<noteq> Some ref_doc
   \<and> fst (getVersionTransformation ref_parse 2 ''v1''
            ((snd (getVersionTransformation ref_parse 1 ''v1'' ref_loaded))
               \<lparr> cl_env := store_env ref_store_changed \<rparr>))
       = Inr (Some ref_resolved)
   \<and> TRANSFORMATIONS (store_env ref_store_changed) ''transformations/v1-to-v2-request.jsonata''
       = Inr (Some ''$.other'')"
proof -
  have a: "map_option config (cl_cache ref_loaded) = Some ref_doc"
    by (simp add: ref_loaded_eq ref_slot_def)
  have d: "ref_doc\<lparr> transformations := Some [(''v1'', ref_resolved)] \<rparr> \<noteq> ref_doc"
    by (simp add: ref_doc_def ref_resolved_def ref_unresolved_def source_expr_def)
  have b: "map_option config (cl_cache (snd (getVersionTransformation ref_parse 1 ''v1'' ref_loaded)))
       \<noteq> Some ref_doc"
    unfolding ref_first_lookup using d by simp
  have c: "fst (getVersionTransformation ref_parse 2 ''v1''
            ((snd (getVersionTransformation ref_parse 1 ''v1'' ref_loaded))
               \<lparr> cl_env := store_env ref_store_changed \<rparr>))
       = Inr (Some ref_resolved)"
    unfolding ref_first_lookup using ref_second_lookup by simp
  have e: "TRANSFORMATIONS (store_env ref_store_changed) ''transformations/v1-to-v2-request.jsonata''
       = Inr (Some ''$.other'')"
    by (simp add: store_env_def ref_store_changed_def)
  show ?thesis using a b c e by simp
qed

section \<open>Properties of the worker\<close>





lemma requestLeg_falsy:
  "\<not> truthy (body ctx) \<Longrightarrow>
   fetch_requestLeg lib now ctx cfg apiVer vt t = (Continue (body ctx, now, t), [])"
  by (simp add: fetch_requestLeg_def)


lemma responseLeg_events:
  "fetch_responseLeg lib now ctx cfg apiVer vt t ures = (fl, evs) \<Longrightarrow> e \<in> set evs
   \<Longrightarrow> \<exists>d r. e = Transformed DirResponse d r"
  by (auto simp: fetch_responseLeg_def Let_def
           split: if_splits option.splits prod.splits sum.splits)


lemma responseLeg_body:
  "fetch_responseLeg lib now (ctx\<lparr> body := b \<rparr>) cfg apiVer vt t ures
   = fetch_responseLeg lib now ctx cfg apiVer vt t ures"
  by (simp add: fetch_responseLeg_def)

lemma upstreamRequest_falsy:
  "\<not> truthy b \<Longrightarrow>
   upstreamRequest env rq ctx b =
     \<lparr> up_base = UPSTREAM_API env, up_path = url_pathname ctx @ url_search ctx,
       up_method = http_method ctx,
       up_headers = [(''X-Forwarded-For'', str_or (req_headers rq ''cf-connecting-ip'') []),
                     (''X-Request-ID'', requestId ctx)],
       up_body = None \<rparr>"
  by (simp add: upstreamRequest_def)


lemma fetch_try_cases:
  assumes "fetch_try parse up lib env rid now rq = (fl, evs)"
  shows "evs = []
         \<or> (\<exists>cfg apiVer vt t.
               fetch_forward up lib env rq now (parseRequestContext rq rid) cfg apiVer vt t
                 = (fl, evs))"
  using assms
  by (auto simp: fetch_try_def Let_def split: prod.splits sum.splits option.splits if_splits)

lemma parseInt10_50: "parseInt10 ''50'' = Some 50"
  by (simp add: parseInt10_def is_ws_def is_digit_def digit_val_def)

lemma ctx_post: "parseRequestContext (post_request b) rid = post_context b rid"
  by (simp add: parseRequestContext_def post_request_def json_headers_def js_or_def
        str_truthy_def str_or_def path_version_def Let_def post_context_def)






lemma fetch_events: "snd (fetch parse up lib env rid now rq) = snd (fetch_try parse up lib env rid now rq)"
  by (simp add: fetch_def split: prod.splits flow.splits sum.splits)




section \<open>Falsy bodies\<close>

lemma ctx_null:
  "parseRequestContext (rq\<lparr> req_json := Inr JNull \<rparr>) rid
   = (parseRequestContext rq rid)\<lparr> body := JNull \<rparr>"
  by (simp add: parseRequestContext_def Let_def)

lemma ctx_falsy:
  "req_json rq = Inr v \<Longrightarrow> \<not> truthy v \<Longrightarrow> \<not> truthy (body (parseRequestContext rq rid))"
  by (simp add: parseRequestContext_def Let_def)

lemma fetch_forward_falsy_eq:
  assumes "\<not> truthy (body ctx)" and "\<not> truthy b'" and "req_headers rq' = req_headers rq"
  shows "fetch_forward up lib env rq' now (ctx\<lparr> body := b' \<rparr>) cfg apiVer vt t
         = fetch_forward up lib env rq now ctx cfg apiVer vt t"
proof -
  have u: "upstreamRequest env rq' (ctx\<lparr> body := b' \<rparr>) b' = upstreamRequest env rq ctx (body ctx)"
    using assms by (simp add: upstreamRequest_falsy)
  have r1: "fetch_requestLeg lib now (ctx\<lparr> body := b' \<rparr>) cfg apiVer vt t
            = (Continue (b', now, t), [])"
    using requestLeg_falsy[of "ctx\<lparr> body := b' \<rparr>" lib now cfg apiVer vt t] assms(2) by simp
  have r2: "fetch_requestLeg lib now ctx cfg apiVer vt t = (Continue (body ctx, now, t), [])"
    by (rule requestLeg_falsy[OF assms(1)])
  show ?thesis
    unfolding fetch_forward_def r1 r2 by (simp add: u responseLeg_body)
qed

lemma fetch_try_falsy_eq:
  assumes "req_json rq = Inr v" and "\<not> truthy v"
  shows "fetch_try parse up lib env rid now (rq\<lparr> req_json := Inr JNull \<rparr>)
         = fetch_try parse up lib env rid now rq"
proof -
  have f: "\<not> truthy (body (parseRequestContext rq rid))" by (rule ctx_falsy[OF assms])
  have e: "fetch_forward up lib env (rq\<lparr> req_json := Inr JNull \<rparr>) now
             ((parseRequestContext rq rid)\<lparr> body := JNull \<rparr>) cfg apiVer vt t
           = fetch_forward up lib env rq now (parseRequestContext rq rid) cfg apiVer vt t"
    for cfg apiVer vt and t :: "'a JsonataTransformer"
    by (rule fetch_forward_falsy_eq[OF f]) simp_all
  show ?thesis
    by (simp add: fetch_try_def ctx_null e Let_def
          cong: prod.case_cong sum.case_cong option.case_cong if_cong)
qed

lemma fetch_forward_falsy_events:
  assumes "\<not> truthy (body ctx)"
    and "fetch_forward up lib env rq now ctx cfg apiVer vt t = (fl, evs)" and "e \<in> set evs"
  shows "(\<exists>d r. e = Transformed DirResponse d r)
         \<or> (\<exists>res. e = Forwarded (upstreamRequest env rq ctx (body ctx)) res)"
proof -
  have r: "fetch_requestLeg lib now ctx cfg apiVer vt t = (Continue (body ctx, now, t), [])"
    by (rule requestLeg_falsy[OF assms(1)])
  obtain d res where u: "up (upstreamRequest env rq ctx (body ctx)) = (d, res)"
    by (cases "up (upstreamRequest env rq ctx (body ctx))")
  show ?thesis
  proof (cases res)
    case (Inl x)
    then show ?thesis using assms(2,3) u unfolding fetch_forward_def r by auto
  next
    case (Inr ures)
    obtain fl2 evs2 where
      r2: "fetch_responseLeg lib (now + int d) ctx cfg apiVer vt t ures = (fl2, evs2)"
      by (cases "fetch_responseLeg lib (now + int d) ctx cfg apiVer vt t ures")
    have "evs = Forwarded (upstreamRequest env rq ctx (body ctx)) (Inr ures) # evs2"
      using assms(2) u Inr r2 unfolding fetch_forward_def r by simp
    then show ?thesis using assms(3) responseLeg_events[OF r2] by auto
  qed
qed

text \<open>
  Claim C10. A request whose JSON body parses to a falsy value is handled exactly as the
  same request with the body \<open>null\<close>, which is what an absent body is: the response and the
  calls made are the same, the request leg never invokes the engine, and every request
  handed to the upstream has a \<open>null\<close> body and no \<open>Content-Type\<close> header.
\<close>

theorem falsy_body_treated_as_absent:
  assumes "req_json rq = Inr v" and "\<not> truthy v"
  shows "fetch parse up lib env rid now rq
           = fetch parse up lib env rid now (rq\<lparr> req_json := Inr JNull \<rparr>)
         \<and> (\<forall>d r. Transformed DirRequest d r \<notin> set (snd (fetch parse up lib env rid now rq)))
         \<and> (\<forall>ureq res. Forwarded ureq res \<in> set (snd (fetch parse up lib env rid now rq)) \<longrightarrow>
               up_body ureq = None \<and> ''Content-Type'' \<notin> set (map fst (up_headers ureq)))"
proof -
  let ?ctx = "parseRequestContext rq rid"
  have f: "\<not> truthy (body ?ctx)" by (rule ctx_falsy[OF assms])
  have eq: "fetch parse up lib env rid now rq
            = fetch parse up lib env rid now (rq\<lparr> req_json := Inr JNull \<rparr>)"
    by (simp add: fetch_def fetch_try_falsy_eq[OF assms])
  obtain fl evs where ft: "fetch_try parse up lib env rid now rq = (fl, evs)"
    by (cases "fetch_try parse up lib env rid now rq")
  have evs: "snd (fetch parse up lib env rid now rq) = evs"
    using ft by (simp add: fetch_events)
  have each: "(\<exists>d r. e = Transformed DirResponse d r)
              \<or> (\<exists>res. e = Forwarded (upstreamRequest env rq ?ctx (body ?ctx)) res)"
    if "e \<in> set evs" for e
  proof -
    have "evs \<noteq> []" using that by auto
    then obtain cfg apiVer vt t where
      "fetch_forward up lib env rq now ?ctx cfg apiVer vt t = (fl, evs)"
      using fetch_try_cases[OF ft] by blast
    from fetch_forward_falsy_events[OF f this that] show ?thesis .
  qed
  have no_req: "Transformed DirRequest d r \<notin> set evs" for d r
    using each[of "Transformed DirRequest d r"] by auto
  have fwd: "up_body ureq = None \<and> ''Content-Type'' \<notin> set (map fst (up_headers ureq))"
    if "Forwarded ureq res \<in> set evs" for ureq res
  proof -
    have "ureq = upstreamRequest env rq ?ctx (body ?ctx)" using each[OF that] by auto
    then show ?thesis using f by (simp add: upstreamRequest_falsy)
  qed
  show ?thesis using eq no_req fwd unfolding evs by blast
qed

lemma default_load:
  "loadConfig (parse_table []) 0 (createConfigLoader failing_env)
   = (Inr getDefaultConfig, default_loader)"
  by (simp add: loadConfig_def loadFromKV_def loadFromKV_try_def createConfigLoader_def
        failing_env_def cacheConfig_def str_or_def parseInt10_3600 default_loader_def
        default_slot_def)

lemma default_slot_facts:
  shows "cl_cache default_loader = Some default_slot"
    and "isCacheValid 0 default_slot"
    and "transformations (config default_slot) = transformations getDefaultConfig"
  by (simp_all add: default_loader_def default_slot_def isCacheValid_def)

lemma default_supported:
  "isSupportedVersion (parse_table []) 0 ''v1'' default_loader = (Inr True, default_loader)"
  using loadConfig_hit[OF default_slot_facts(1,2), of "parse_table []"]
  by (simp add: isSupportedVersion_def default_slot_def getDefaultConfig_def)

lemma default_lookup:
  "getVersionTransformation (parse_table []) 0 ''v1'' default_loader
   = (Inr (Some default_v1), default_loader)"
proof (rule lookup_plain[OF default_slot_facts(1,2)])
  show "transformations (config default_slot) = Some
         [(''v1'', default_v1),
          (''v2'',
           \<lparr> request = Some \<lparr> expression = Some ''$'', cacheTtl = None,
                              description = Some ''No transformation (current version)'' \<rparr>,
             response = Some \<lparr> expression = Some ''$'', cacheTtl = None,
                               description = Some ''No transformation (current version)'' \<rparr>,
             targetVersion = Some ''v2'' \<rparr>)]"
    by (simp add: default_slot_def getDefaultConfig_def default_v1_def)
  show "map_of [(''v1'', default_v1),
          (''v2'',
           \<lparr> request = Some \<lparr> expression = Some ''$'', cacheTtl = None,
                              description = Some ''No transformation (current version)'' \<rparr>,
             response = Some \<lparr> expression = Some ''$'', cacheTtl = None,
                               description = Some ''No transformation (current version)'' \<rparr>,
             targetVersion = Some ''v2'' \<rparr>)] ''v1'' = Some default_v1"
    by simp
  show "request default_v1 = Some \<lparr> expression = Some v1_request_source, cacheTtl = Some 3600,
                        description = Some ''Transform v1 request to v2 format'' \<rparr>"
    by (simp add: default_v1_def)
  show "expression \<lparr> expression = Some v1_request_source, cacheTtl = Some 3600,
                        description = Some ''Transform v1 request to v2 format'' \<rparr>
        = Some v1_request_source"
    by simp
  show "take 3 v1_request_source \<noteq> ''kv:''" by (simp add: v1_request_source_def)
  show "response default_v1 = Some \<lparr> expression = Some v1_response_source, cacheTtl = Some 3600,
                         description = Some ''Transform v2 response back to v1 format'' \<rparr>"
    by (simp add: default_v1_def)
  show "expression \<lparr> expression = Some v1_response_source, cacheTtl = Some 3600,
                         description = Some ''Transform v2 response back to v1 format'' \<rparr>
        = Some v1_response_source"
    by simp
  show "take 3 v1_response_source \<noteq> ''kv:''" by (simp add: v1_response_source_def)
qed

lemma default_fetch_try:
  "fetch_try (parse_table []) upstream_ok strict_lib failing_env ''req-1'' 0 (post_request b)
   = fetch_forward upstream_ok strict_lib failing_env (post_request b) 0
       (post_context b ''req-1'') getDefaultConfig (Some ''v1'') default_v1
       (new_JsonataTransformer None (Some 50))"
proof -
  have t: "(new_JsonataTransformer None
              (parseInt10 (str_or (TRANSFORMATION_TIMEOUT_MS failing_env) ''50''))
            :: string JsonataTransformer)
           = new_JsonataTransformer None (Some 50)"
    by (simp add: failing_env_def str_or_def parseInt10_50)
  show ?thesis
    by (simp add: fetch_try_def ctx_post default_load t Let_def)
       (simp add: post_context_def key_of_def default_supported default_lookup)
qed

lemma zero_forwarded:
  "\<exists>evs2. snd (fetch (parse_table []) upstream_ok strict_lib failing_env ''req-1'' 0
                 (post_request (JNum 0)))
     = Forwarded (upstreamRequest failing_env (post_request (JNum 0))
                   (post_context (JNum 0) ''req-1'') (JNum 0)) (Inr upstream_response) # evs2"
proof -
  have f: "\<not> truthy (body (post_context (JNum 0) ''req-1''))" by (simp add: post_context_def)
  have b: "body (post_context (JNum 0) ''req-1'') = JNum 0" by (simp add: post_context_def)
  show ?thesis
    unfolding fetch_events default_fetch_try fetch_forward_def requestLeg_falsy[OF f] b
    by (simp add: upstream_ok_def upstream_response_def split: prod.splits)
qed

lemma one_transformed:
  "\<exists>r evs2. snd (fetch (parse_table []) upstream_ok strict_lib failing_env ''req-1'' 0
                   (post_request (JNum 1)))
     = Transformed DirRequest (JNum 1) r # evs2"
proof -
  have rl: "\<exists>t1 r. fetch_requestLeg strict_lib 0 (post_context (JNum 1) ''req-1'') getDefaultConfig
              (Some ''v1'') default_v1 (new_JsonataTransformer None (Some 50))
            = (Continue (JNum 1, 1, t1), [Transformed DirRequest (JNum 1) r])"
    by (simp add: fetch_requestLeg_def post_context_def getDefaultConfig_def default_v1_def
          v1_request_source_def transform_def compileExpression_def strict_lib_def
          new_JsonataTransformer_def new_ExpressionCache_def num_or_def cacheKey_def
          ExpressionCache_get_def ExpressionCache_set_def executeWithTimeout_def
          setTimeout_def clearTimeout_def)
  then obtain t1 r where rl': "fetch_requestLeg strict_lib 0 (post_context (JNum 1) ''req-1'')
              getDefaultConfig (Some ''v1'') default_v1 (new_JsonataTransformer None (Some 50))
            = (Continue (JNum 1, 1, t1), [Transformed DirRequest (JNum 1) r])"
    by blast
  show ?thesis
    unfolding fetch_events default_fetch_try fetch_forward_def rl'
    by (simp add: upstream_ok_def split: prod.splits)
qed

text \<open>
  The body \<open>0\<close> from a \<open>v1\<close> client under the default configuration: forwarded without
  body and without transformation, where the body \<open>1\<close> is transformed.
\<close>

theorem falsy_body_witness:
  "fetch (parse_table []) upstream_ok strict_lib failing_env ''req-1'' 0 (post_request (JNum 0))
     = fetch (parse_table []) upstream_ok strict_lib failing_env ''req-1'' 0 (post_request JNull)
   \<and> (\<forall>d r. Transformed DirRequest d r
         \<notin> set (snd (fetch (parse_table []) upstream_ok strict_lib failing_env ''req-1'' 0
                        (post_request (JNum 0)))))
   \<and> (\<exists>ureq res. Forwarded ureq res
         \<in> set (snd (fetch (parse_table []) upstream_ok strict_lib failing_env ''req-1'' 0
                        (post_request (JNum 0))))
         \<and> up_body ureq = None \<and> ''Content-Type'' \<notin> set (map fst (up_headers ureq)))
   \<and> (\<exists>r. Transformed DirRequest (JNum 1) r
         \<in> set (snd (fetch (parse_table []) upstream_ok strict_lib failing_env ''req-1'' 0
                        (post_request (JNum 1)))))"
proof -
  have h1: "req_json (post_request (JNum 0)) = Inr (JNum 0)" by (simp add: post_request_def)
  have h2: "\<not> truthy (JNum 0)" by simp
  have n: "(post_request (JNum 0))\<lparr> req_json := Inr JNull \<rparr> = post_request JNull"
    by (simp add: post_request_def)
  note t = falsy_body_treated_as_absent[OF h1 h2, of "parse_table []" upstream_ok strict_lib
             failing_env "''req-1''" 0, unfolded n]
  obtain evs2 where
    e: "snd (fetch (parse_table []) upstream_ok strict_lib failing_env ''req-1'' 0
               (post_request (JNum 0)))
        = Forwarded (upstreamRequest failing_env (post_request (JNum 0))
                      (post_context (JNum 0) ''req-1'') (JNum 0)) (Inr upstream_response) # evs2"
    using zero_forwarded by blast
  have m: "Forwarded (upstreamRequest failing_env (post_request (JNum 0))
                      (post_context (JNum 0) ''req-1'') (JNum 0)) (Inr upstream_response)
           \<in> set (snd (fetch (parse_table []) upstream_ok strict_lib failing_env ''req-1'' 0
                          (post_request (JNum 0))))"
    unfolding e by simp
  have c3: "\<exists>ureq res. Forwarded ureq res
         \<in> set (snd (fetch (parse_table []) upstream_ok strict_lib failing_env ''req-1'' 0
                        (post_request (JNum 0))))
         \<and> up_body ureq = None \<and> ''Content-Type'' \<notin> set (map fst (up_headers ureq))"
    using t m by blast
  have c4: "\<exists>r. Transformed DirRequest (JNum 1) r
         \<in> set (snd (fetch (parse_table []) upstream_ok strict_lib failing_env ''req-1'' 0
                        (post_request (JNum 1))))"
    using one_transformed by auto
  show ?thesis using t c3 c4 by blast
qed

end
